theory Spec2Isabelle
  imports Main "HOL-Library.Word" "HOL-Library.AList"
begin

section \<open>Strings\<close>

text \<open>
  A JavaScript string is a sequence of UTF-16 code units; \<open>s.length\<close> counts them and
  \<open>===\<close> compares them one by one. ASCII literals of the source are written through
  \<open>ascii\<close>, Thai literals by their code units.
\<close>

type_synonym jsstring = "16 word list"

definition ascii :: "string \<Rightarrow> jsstring" where
  "ascii s = map of_char s"

text \<open>Truthiness of a \<open>string | null | undefined\<close> value: \<open>null\<close>, \<open>undefined\<close> and
  the empty string are falsy.\<close>

fun truthy :: "jsstring option \<Rightarrow> bool" where
  "truthy None = False"
| "truthy (Some s) = (s \<noteq> [])"

text \<open>\<open>x || ""\<close> on an optional string.\<close>

fun or_empty :: "jsstring option \<Rightarrow> jsstring" where
  "or_empty None = []"
| "or_empty (Some s) = s"

text \<open>\<open>x ?? y\<close> with \<open>x\<close> and \<open>y\<close> of type \<open>string | undefined\<close>.\<close>

fun nullish_or :: "'a option \<Rightarrow> 'a option \<Rightarrow> 'a option" where
  "nullish_or None y = y"
| "nullish_or (Some x) y = Some x"

section \<open>Types and schema (App.tsx, validators.ts)\<close>

text \<open>
  \<open>type Member\<close>. The field \<open>id\<close> is called \<open>m_id\<close> here, and the other fields
  carry the same \<open>m_\<close> to keep them apart from the form values' fields of the same name.
  \<open>prefix\<close> is a union of four string literals in the type; at run time it is the string.
  An optional field that is \<open>undefined\<close> is \<open>None\<close>.
\<close>

record Member =
  m_id :: jsstring
  m_prefix :: jsstring
  m_firstName :: jsstring
  m_lastName :: jsstring
  m_photo :: "jsstring option"
  m_workHistory :: jsstring
  m_ministerPosition :: "jsstring option"
  m_ministry :: "jsstring option"
  m_party :: jsstring

text \<open>
  A \<open>File\<close> chosen in the file input. What \<open>fileToDataUrl\<close> does with it is decided by
  the browser's \<open>FileReader\<close>: \<open>onload\<close> with the data URL, or \<open>onerror\<close>.
\<close>

datatype File = Readable jsstring | Unreadable

text \<open>\<open>MemberFormValues\<close>: the values held by the form, before and after validation.
  \<open>photoFile\<close> is \<open>File | null | undefined\<close>; \<open>null\<close> and \<open>undefined\<close> are \<open>None\<close>.\<close>

record MemberFormValues =
  prefix :: jsstring
  firstName :: jsstring
  lastName :: jsstring
  photoFile :: "File option"
  workHistory :: jsstring
  ministerPosition :: "jsstring option"
  ministry :: "jsstring option"
  party :: jsstring

text \<open>The four literals of \<open>z.enum\<close>, as UTF-16 code units.\<close>

definition prefix_nai :: jsstring where
  "prefix_nai = [0x0E19, 0x0E32, 0x0E22]"

definition prefix_nang :: jsstring where
  "prefix_nang = [0x0E19, 0x0E32, 0x0E07]"

definition prefix_nangsao :: jsstring where
  "prefix_nangsao = [0x0E19, 0x0E32, 0x0E07, 0x0E2A, 0x0E32, 0x0E27]"

definition prefix_other :: jsstring where
  "prefix_other = [0x0E2D, 0x0E37, 0x0E48, 0x0E19, 0x0E46]"

definition prefix_enum :: "jsstring list" where
  "prefix_enum = [prefix_nai, prefix_nang, prefix_nangsao, prefix_other]"

text \<open>The fields of the schema; a validation failure is the list of fields that failed,
  in the order of the schema (the messages are fixed texts per field and are left out).\<close>

datatype field =
  F_prefix | F_firstName | F_lastName | F_photoFile | F_workHistory
  | F_ministerPosition | F_ministry | F_party

text \<open>\<open>z.string().min(1, msg)\<close>: the length is at least one.\<close>

definition min1 :: "field \<Rightarrow> jsstring \<Rightarrow> field list" where
  "min1 f s = (if length s \<ge> 1 then [] else [f])"

text \<open>
  \<open>memberSchema\<close>: \<open>prefix\<close> is one of the enum's literals; \<open>firstName\<close>, \<open>lastName\<close>,
  \<open>workHistory\<close> and \<open>party\<close> have length at least one; \<open>photoFile\<close> is a
  \<open>File\<close>, \<open>null\<close> or \<open>undefined\<close> and \<open>ministerPosition\<close>, \<open>ministry\<close> are strings or
  \<open>undefined\<close>, which the types of the form values already say.
\<close>

definition schema_issues :: "MemberFormValues \<Rightarrow> field list" where
  "schema_issues d =
     (if prefix d \<in> set prefix_enum then [] else [F_prefix])
     @ min1 F_firstName (firstName d)
     @ min1 F_lastName (lastName d)
     @ min1 F_workHistory (workHistory d)
     @ min1 F_party (party d)"

definition memberSchema :: "MemberFormValues \<Rightarrow> field list + MemberFormValues" where
  "memberSchema d = (if schema_issues d = [] then Inr d else Inl (schema_issues d))"

section \<open>Utils\<close>

text \<open>
  What \<open>safeUUID\<close> reads from its environment: the result of \<open>crypto.randomUUID()\<close>
  (\<open>None\<close> when the function is missing or throws), \<open>Date.now()\<close>, and the text of
  \<open>Math.random().toString(36)\<close>.
\<close>

record id_env =
  randomUUID :: "jsstring option"
  date_now :: nat
  random_base36 :: jsstring

text \<open>Decimal digits of a natural number, as the template literal prints \<open>Date.now()\<close>.\<close>

fun decimal :: "nat \<Rightarrow> jsstring" where
  "decimal n = (if n < 10 then [0x30 + of_nat n]
                else decimal (n div 10) @ [0x30 + of_nat (n mod 10)])"

declare decimal.simps [simp del]

definition safeUUID :: "id_env \<Rightarrow> jsstring" where
  "safeUUID env =
     (case randomUUID env of
        Some u \<Rightarrow> u
      | None \<Rightarrow> ascii ''id_'' @ decimal (date_now env) @ ascii ''_''
                 @ take 6 (drop 2 (random_base36 env)))"

datatype error = ValidationError "field list" | ImageReadError

definition fileToDataUrl :: "File \<Rightarrow> error + jsstring" where
  "fileToDataUrl f = (case f of Readable url \<Rightarrow> Inr url | Unreadable \<Rightarrow> Inl ImageReadError)"

section \<open>JSON.stringify and JSON.parse\<close>

text \<open>
  The collection is written with \<open>JSON.stringify(members)\<close> and read back with
  \<open>JSON.parse(raw)\<close>. Both are functions of the language (ECMA-262, clause 25.5); they are
  modelled here on the values of JSON. A number is kept as the text it was written with:
  its floating-point value plays no part in a member record. The properties of an object
  are listed in the order of creation.
\<close>

datatype json =
  JNull | JBool bool | JNumber jsstring | JString jsstring
  | JArray "json list" | JObject "(jsstring \<times> json) list"

subsection \<open>Serialization\<close>

text \<open>\<open>UnicodeEscape\<close>: \<open>\u\<close> and the four lower-case hexadecimal digits of the code
  unit.\<close>

definition hexdigit :: "nat \<Rightarrow> 16 word" where
  "hexdigit d = of_nat (if d < 10 then 48 + d else 87 + d)"

definition UnicodeEscape :: "16 word \<Rightarrow> jsstring" where
  "UnicodeEscape c =
     [0x5C, 0x75, hexdigit (unat c div 4096), hexdigit (unat c div 256 mod 16),
      hexdigit (unat c div 16 mod 16), hexdigit (unat c mod 16)]"

definition is_leading_surrogate :: "16 word \<Rightarrow> bool" where
  "is_leading_surrogate c = (0xD800 \<le> c \<and> c \<le> 0xDBFF)"

definition is_trailing_surrogate :: "16 word \<Rightarrow> bool" where
  "is_trailing_surrogate c = (0xDC00 \<le> c \<and> c \<le> 0xDFFF)"

text \<open>
  \<open>QuoteJSONString\<close> on one code point that is not a surrogate: the two-character escapes
  of backspace, tab, line feed, form feed, carriage return, the quotation mark and the
  backslash; a \<open>\u\<close> escape below U+0020; the code point itself otherwise.
\<close>

definition quote_unit :: "16 word \<Rightarrow> jsstring" where
  "quote_unit c =
     (if c = 0x08 then [0x5C, 0x62]
      else if c = 0x09 then [0x5C, 0x74]
      else if c = 0x0A then [0x5C, 0x6E]
      else if c = 0x0C then [0x5C, 0x66]
      else if c = 0x0D then [0x5C, 0x72]
      else if c = 0x22 then [0x5C, 0x22]
      else if c = 0x5C then [0x5C, 0x5C]
      else if c < 0x20 then UnicodeEscape c
      else [c])"

text \<open>
  The string is read by code points: a leading surrogate followed by a trailing one is a
  pair and is copied; a surrogate on its own is written as a \<open>\u\<close> escape.
\<close>

fun quote_units :: "jsstring \<Rightarrow> jsstring" where
  "quote_units [] = []"
| "quote_units [c] =
     (if is_leading_surrogate c \<or> is_trailing_surrogate c then UnicodeEscape c
      else quote_unit c)"
| "quote_units (c # d # cs) =
     (if is_leading_surrogate c \<and> is_trailing_surrogate d then c # d # quote_units cs
      else if is_leading_surrogate c \<or> is_trailing_surrogate c
        then UnicodeEscape c @ quote_units (d # cs)
      else quote_unit c @ quote_units (d # cs))"

definition QuoteJSONString :: "jsstring \<Rightarrow> jsstring" where
  "QuoteJSONString s = 0x22 # quote_units s @ [0x22]"

fun join_comma :: "jsstring list \<Rightarrow> jsstring" where
  "join_comma [] = []"
| "join_comma [x] = x"
| "join_comma (x # y # ys) = x @ 0x2C # join_comma (y # ys)"

text \<open>\<open>SerializeJSONProperty\<close> with no replacer and no indentation.\<close>

fun SerializeJSONProperty :: "json \<Rightarrow> jsstring" where
  "SerializeJSONProperty JNull = ascii ''null''"
| "SerializeJSONProperty (JBool b) = (if b then ascii ''true'' else ascii ''false'')"
| "SerializeJSONProperty (JNumber n) = n"
| "SerializeJSONProperty (JString s) = QuoteJSONString s"
| "SerializeJSONProperty (JArray vs) =
     0x5B # join_comma (map SerializeJSONProperty vs) @ [0x5D]"
| "SerializeJSONProperty (JObject kvs) =
     0x7B # join_comma (map (\<lambda>(k, v). QuoteJSONString k @ 0x3A # SerializeJSONProperty v) kvs)
       @ [0x7D]"

definition JSON_stringify :: "json \<Rightarrow> jsstring" where
  "JSON_stringify v = SerializeJSONProperty v"

subsection \<open>Parsing\<close>

definition is_json_ws :: "16 word \<Rightarrow> bool" where
  "is_json_ws c = (c = 0x20 \<or> c = 0x09 \<or> c = 0x0A \<or> c = 0x0D)"

definition skip_ws :: "jsstring \<Rightarrow> jsstring" where
  "skip_ws cs = dropWhile is_json_ws cs"

definition hexval :: "16 word \<Rightarrow> nat option" where
  "hexval h =
     (if 0x30 \<le> h \<and> h \<le> 0x39 then Some (unat h - 48)
      else if 0x41 \<le> h \<and> h \<le> 0x46 then Some (unat h - 55)
      else if 0x61 \<le> h \<and> h \<le> 0x66 then Some (unat h - 87)
      else None)"

definition hex4 :: "16 word \<Rightarrow> 16 word \<Rightarrow> 16 word \<Rightarrow> 16 word \<Rightarrow> 16 word option" where
  "hex4 a b c d =
     (case (hexval a, hexval b, hexval c, hexval d) of
        (Some x3, Some x2, Some x1, Some x0) \<Rightarrow>
          Some (of_nat (((x3 * 16 + x2) * 16 + x1) * 16 + x0))
      | _ \<Rightarrow> None)"

text \<open>The character after a backslash: one of \<open>" / \ b f n r t\<close>.\<close>

definition unescape :: "16 word \<Rightarrow> 16 word option" where
  "unescape e =
     (if e = 0x22 then Some 0x22
      else if e = 0x2F then Some 0x2F
      else if e = 0x5C then Some 0x5C
      else if e = 0x62 then Some 0x08
      else if e = 0x66 then Some 0x0C
      else if e = 0x6E then Some 0x0A
      else if e = 0x72 then Some 0x0D
      else if e = 0x74 then Some 0x09
      else None)"

definition cons_result :: "'a \<Rightarrow> ('a list \<times> 'b) option \<Rightarrow> ('a list \<times> 'b) option" where
  "cons_result x r = (case r of None \<Rightarrow> None | Some (xs, rest) \<Rightarrow> Some (x # xs, rest))"

text \<open>
  The characters of a string, after its opening quotation mark: the string read and the
  text after the closing quotation mark. A character below U+0020 is not allowed.
\<close>

fun parse_chars :: "jsstring \<Rightarrow> (jsstring \<times> jsstring) option" where
  "parse_chars [] = None"
| "parse_chars (c # cs) =
     (if c = 0x22 then Some ([], cs)
      else if c = 0x5C then
        (case cs of
           [] \<Rightarrow> None
         | e # r \<Rightarrow>
             if e = 0x75 then
               (case r of
                  h1 # h2 # h3 # h4 # r' \<Rightarrow>
                    (case hex4 h1 h2 h3 h4 of
                       None \<Rightarrow> None
                     | Some u \<Rightarrow> cons_result u (parse_chars r'))
                | _ \<Rightarrow> None)
             else
               (case unescape e of
                  None \<Rightarrow> None
                | Some u \<Rightarrow> cons_result u (parse_chars r)))
      else if c < 0x20 then None
      else cons_result c (parse_chars cs))"

text \<open>
  Numbers: an optional minus, \<open>0\<close> or a digit from 1 to 9 followed by digits, an optional
  fraction of a point and at least one digit, an optional exponent of \<open>e\<close> or \<open>E\<close>, an
  optional sign and at least one digit.
\<close>

definition is_digit :: "16 word \<Rightarrow> bool" where
  "is_digit c = (0x30 \<le> c \<and> c \<le> 0x39)"

definition digits :: "jsstring \<Rightarrow> jsstring \<times> jsstring" where
  "digits cs = (takeWhile is_digit cs, dropWhile is_digit cs)"

definition scan_minus :: "jsstring \<Rightarrow> jsstring \<times> jsstring" where
  "scan_minus cs =
     (case cs of
        [] \<Rightarrow> ([], cs)
      | c # r \<Rightarrow> if c = 0x2D then ([c], r) else ([], cs))"

definition scan_integer :: "jsstring \<Rightarrow> (jsstring \<times> jsstring) option" where
  "scan_integer cs =
     (case cs of
        [] \<Rightarrow> None
      | c # r \<Rightarrow>
          if c = 0x30 then Some ([c], r)
          else if is_digit c then Some (c # fst (digits r), snd (digits r))
          else None)"

definition scan_fraction :: "jsstring \<Rightarrow> (jsstring \<times> jsstring) option" where
  "scan_fraction cs =
     (case cs of
        [] \<Rightarrow> Some ([], cs)
      | c # r \<Rightarrow>
          if c = 0x2E then
            (if fst (digits r) = [] then None else Some (c # fst (digits r), snd (digits r)))
          else Some ([], cs))"

definition scan_sign :: "jsstring \<Rightarrow> jsstring \<times> jsstring" where
  "scan_sign cs =
     (case cs of
        [] \<Rightarrow> ([], cs)
      | c # r \<Rightarrow> if c = 0x2B \<or> c = 0x2D then ([c], r) else ([], cs))"

definition scan_exponent :: "jsstring \<Rightarrow> (jsstring \<times> jsstring) option" where
  "scan_exponent cs =
     (case cs of
        [] \<Rightarrow> Some ([], cs)
      | c # r \<Rightarrow>
          if c = 0x65 \<or> c = 0x45 then
            (let (sign, r1) = scan_sign r in
             if fst (digits r1) = [] then None
             else Some (c # sign @ fst (digits r1), snd (digits r1)))
          else Some ([], cs))"

definition scan_number :: "jsstring \<Rightarrow> (jsstring \<times> jsstring) option" where
  "scan_number cs =
     (let (minus, r0) = scan_minus cs
      in case scan_integer r0 of
           None \<Rightarrow> None
         | Some (i, r1) \<Rightarrow>
             (case scan_fraction r1 of
                None \<Rightarrow> None
              | Some (f, r2) \<Rightarrow>
                  (case scan_exponent r2 of
                     None \<Rightarrow> None
                   | Some (e, r3) \<Rightarrow> Some (minus @ i @ f @ e, r3))))"

definition parse_scalar :: "jsstring \<Rightarrow> (json \<times> jsstring) option" where
  "parse_scalar cs =
     (if take 4 cs = ascii ''null'' then Some (JNull, drop 4 cs)
      else if take 4 cs = ascii ''true'' then Some (JBool True, drop 4 cs)
      else if take 5 cs = ascii ''false'' then Some (JBool False, drop 5 cs)
      else (case scan_number cs of
              None \<Rightarrow> None
            | Some (n, r) \<Rightarrow> Some (JNumber n, r)))"

text \<open>
  A value, the elements of an array after its first bracket, and the members of an object
  after its first brace; each gives what it read and the text that follows. The first
  argument bounds the number of nested calls: every call reads at least one character
  before it calls again, so twice the length of the text is never used up. A key that is
  repeated keeps its place and takes the last value.
\<close>

fun parse_value :: "nat \<Rightarrow> jsstring \<Rightarrow> (json \<times> jsstring) option"
  and parse_elements :: "nat \<Rightarrow> jsstring \<Rightarrow> (json list \<times> jsstring) option"
  and parse_members :: "nat \<Rightarrow> jsstring \<Rightarrow> ((jsstring \<times> json) list \<times> jsstring) option"
where
  "parse_value 0 cs = None"
| "parse_value (Suc n) cs =
     (case skip_ws cs of
        [] \<Rightarrow> None
      | c # r \<Rightarrow>
          if c = 0x7B then
            (case skip_ws r of
               [] \<Rightarrow> None
             | c' # r' \<Rightarrow>
                 if c' = 0x7D then Some (JObject [], r')
                 else (case parse_members n (c' # r') of
                         None \<Rightarrow> None
                       | Some (kvs, r'') \<Rightarrow>
                           Some (JObject (fold (\<lambda>(k, v). AList.update k v) kvs []), r'')))
          else if c = 0x5B then
            (case skip_ws r of
               [] \<Rightarrow> None
             | c' # r' \<Rightarrow>
                 if c' = 0x5D then Some (JArray [], r')
                 else (case parse_elements n (c' # r') of
                         None \<Rightarrow> None
                       | Some (vs, r'') \<Rightarrow> Some (JArray vs, r'')))
          else if c = 0x22 then
            (case parse_chars r of
               None \<Rightarrow> None
             | Some (s, r') \<Rightarrow> Some (JString s, r'))
          else parse_scalar (c # r))"
| "parse_elements 0 cs = None"
| "parse_elements (Suc n) cs =
     (case parse_value n cs of
        None \<Rightarrow> None
      | Some (v, r) \<Rightarrow>
          (case skip_ws r of
             [] \<Rightarrow> None
           | c # r' \<Rightarrow>
               if c = 0x5D then Some ([v], r')
               else if c = 0x2C then cons_result v (parse_elements n r')
               else None))"
| "parse_members 0 cs = None"
| "parse_members (Suc n) cs =
     (case skip_ws cs of
        [] \<Rightarrow> None
      | c # r \<Rightarrow>
          if c = 0x22 then
            (case parse_chars r of
               None \<Rightarrow> None
             | Some (k, r1) \<Rightarrow>
                 (case skip_ws r1 of
                    [] \<Rightarrow> None
                  | c1 # r2 \<Rightarrow>
                      if c1 = 0x3A then
                        (case parse_value n r2 of
                           None \<Rightarrow> None
                         | Some (v, r3) \<Rightarrow>
                             (case skip_ws r3 of
                                [] \<Rightarrow> None
                              | c3 # r4 \<Rightarrow>
                                  if c3 = 0x7D then Some ([(k, v)], r4)
                                  else if c3 = 0x2C
                                    then cons_result (k, v) (parse_members n r4)
                                  else None))
                      else None))
          else None)"

text \<open>\<open>JSON.parse(text)\<close>: one value with nothing but white space after it; \<open>None\<close> is the
  \<open>SyntaxError\<close>.\<close>

definition JSON_parse :: "jsstring \<Rightarrow> json option" where
  "JSON_parse text =
     (case parse_value (2 * length text + 1) text of
        None \<Rightarrow> None
      | Some (v, rest) \<Rightarrow> if skip_ws rest = [] then Some v else None)"

subsection \<open>Member records as values of JSON\<close>

text \<open>
  The own properties of a record, in the order in which \<open>onSubmit\<close> creates them; an
  optional property may hold \<open>undefined\<close>, and \<open>JSON.stringify\<close> leaves such a property
  out.
\<close>

definition own_properties :: "Member \<Rightarrow> (jsstring \<times> jsstring option) list" where
  "own_properties m =
     [(ascii ''id'', Some (m_id m)),
      (ascii ''prefix'', Some (m_prefix m)),
      (ascii ''firstName'', Some (m_firstName m)),
      (ascii ''lastName'', Some (m_lastName m)),
      (ascii ''workHistory'', Some (m_workHistory m)),
      (ascii ''ministerPosition'', m_ministerPosition m),
      (ascii ''ministry'', m_ministry m),
      (ascii ''party'', Some (m_party m)),
      (ascii ''photo'', m_photo m)]"

fun defined_properties ::
  "(jsstring \<times> jsstring option) list \<Rightarrow> (jsstring \<times> json) list" where
  "defined_properties [] = []"
| "defined_properties ((k, None) # ps) = defined_properties ps"
| "defined_properties ((k, Some s) # ps) = (k, JString s) # defined_properties ps"

definition json_of_member :: "Member \<Rightarrow> json" where
  "json_of_member m = JObject (defined_properties (own_properties m))"

definition members_value :: "Member list \<Rightarrow> json" where
  "members_value ms = JArray (map json_of_member ms)"

text \<open>
  \<open>JSON.parse(raw) as Member[]\<close>: the cast checks nothing. A parsed value is read as
  member records where it is an array of objects whose properties have the types of
  \<open>Member\<close>: the six required ones are strings, the three optional ones are strings or
  absent.
\<close>

definition required_string :: "(jsstring \<times> json) list \<Rightarrow> jsstring \<Rightarrow> jsstring option" where
  "required_string kvs k = (case map_of kvs k of Some (JString s) \<Rightarrow> Some s | _ \<Rightarrow> None)"

definition optional_string ::
  "(jsstring \<times> json) list \<Rightarrow> jsstring \<Rightarrow> jsstring option option" where
  "optional_string kvs k =
     (case map_of kvs k of
        None \<Rightarrow> Some None
      | Some (JString s) \<Rightarrow> Some (Some s)
      | _ \<Rightarrow> None)"

fun as_Member :: "json \<Rightarrow> Member option" where
  "as_Member (JObject kvs) =
     Option.bind (required_string kvs (ascii ''id'')) (\<lambda>i.
     Option.bind (required_string kvs (ascii ''prefix'')) (\<lambda>p.
     Option.bind (required_string kvs (ascii ''firstName'')) (\<lambda>fn.
     Option.bind (required_string kvs (ascii ''lastName'')) (\<lambda>ln.
     Option.bind (optional_string kvs (ascii ''photo'')) (\<lambda>ph.
     Option.bind (required_string kvs (ascii ''workHistory'')) (\<lambda>wh.
     Option.bind (optional_string kvs (ascii ''ministerPosition'')) (\<lambda>mp.
     Option.bind (optional_string kvs (ascii ''ministry'')) (\<lambda>mi.
     Option.bind (required_string kvs (ascii ''party'')) (\<lambda>pa.
       Some \<lparr> m_id = i, m_prefix = p, m_firstName = fn, m_lastName = ln, m_photo = ph,
              m_workHistory = wh, m_ministerPosition = mp, m_ministry = mi,
              m_party = pa \<rparr>)))))))))"
| "as_Member _ = None"

fun as_Member_array :: "json \<Rightarrow> Member list option" where
  "as_Member_array (JArray vs) = those (map as_Member vs)"
| "as_Member_array _ = None"

section \<open>The stored snapshot\<close>

text \<open>
  \<open>localStorage\<close>, as far as the key \<open>members\<close> goes: whether it can be used at all
  (access throws otherwise), how long a text it takes, and the text under the key
  (\<open>None\<close> when the key is absent, where \<open>getItem\<close> returns \<open>null\<close>).
\<close>

datatype exn = SecurityError | QuotaExceededError | SyntaxError

record storage =
  accessible :: bool
  quota :: nat
  stored :: "jsstring option"

definition getItem :: "storage \<Rightarrow> exn + jsstring option" where
  "getItem s = (if accessible s then Inr (stored s) else Inl SecurityError)"

definition setItem :: "storage \<Rightarrow> jsstring \<Rightarrow> exn + storage" where
  "setItem s v =
     (if \<not> accessible s then Inl SecurityError
      else if quota s < length v then Inl QuotaExceededError
      else Inr (s\<lparr> stored := Some v \<rparr>))"

text \<open>The \<open>try\<close> block of the initializer of \<open>members\<close>: \<open>raw ? JSON.parse(raw) : []\<close>.\<close>

definition initializer_try :: "storage \<Rightarrow> exn + json" where
  "initializer_try s =
     (case getItem s of
        Inl e \<Rightarrow> Inl e
      | Inr None \<Rightarrow> Inr (JArray [])
      | Inr (Some raw) \<Rightarrow>
          if raw = [] then Inr (JArray [])
          else (case JSON_parse raw of None \<Rightarrow> Inl SyntaxError | Some v \<Rightarrow> Inr v))"

text \<open>The initializer with its \<open>catch\<close>, which returns \<open>[]\<close>.\<close>

definition initial_members :: "storage \<Rightarrow> exn + json" where
  "initial_members s =
     (case initializer_try s of
        Inl e \<Rightarrow> Inr (JArray [])
      | Inr v \<Rightarrow> Inr v)"

text \<open>The effect on \<open>members\<close>: \<open>setItem\<close> of the serialized collection; a failure is
  logged and the storage is as it was.\<close>

definition persist_effect :: "storage \<Rightarrow> Member list \<Rightarrow> storage" where
  "persist_effect s ms =
     (case setItem s (JSON_stringify (members_value ms)) of
        Inl e \<Rightarrow> s
      | Inr s' \<Rightarrow> s')"

section \<open>App\<close>

definition initialValues :: MemberFormValues where
  "initialValues =
     \<lparr> prefix = prefix_nai, firstName = [], lastName = [], photoFile = None,
       workHistory = [], ministerPosition = Some [], ministry = Some [], party = [] \<rparr>"

text \<open>The state of \<open>InnerApp\<close>: the two \<open>useState\<close> cells and the values of the form.\<close>

record app =
  members :: "Member list"
  editingId :: "jsstring option"
  form :: MemberFormValues

text \<open>The updater of the editing branch of \<open>onSubmit\<close>, applied to one record.\<close>

definition update_member ::
  "jsstring \<Rightarrow> MemberFormValues \<Rightarrow> jsstring option \<Rightarrow> Member \<Rightarrow> Member" where
  "update_member eid values dataUrl m =
     (if m_id m = eid
      then m\<lparr> m_prefix := prefix values,
              m_firstName := firstName values,
              m_lastName := lastName values,
              m_workHistory := workHistory values,
              m_ministerPosition := Some (or_empty (ministerPosition values)),
              m_ministry := Some (or_empty (ministry values)),
              m_party := party values,
              m_photo := nullish_or dataUrl (m_photo m) \<rparr>
      else m)"

text \<open>The record built by the creating branch of \<open>onSubmit\<close>.\<close>

definition new_member :: "jsstring \<Rightarrow> MemberFormValues \<Rightarrow> jsstring option \<Rightarrow> Member" where
  "new_member uid values dataUrl =
     \<lparr> m_id = uid,
       m_prefix = prefix values,
       m_firstName = firstName values,
       m_lastName = lastName values,
       m_photo = dataUrl,
       m_workHistory = workHistory values,
       m_ministerPosition = Some (or_empty (ministerPosition values)),
       m_ministry = Some (or_empty (ministry values)),
       m_party = party values \<rparr>"

text \<open>
  The function given to \<open>handleSubmit\<close>. A \<open>File\<close> is read first; when the read fails the
  \<open>catch\<close> reports it and nothing has been set. Otherwise the branch is chosen by the
  truthiness of \<open>editingId\<close> (\<open>null\<close> and the empty string are falsy), and the form is
  reset.
\<close>

definition read_photo :: "MemberFormValues \<Rightarrow> error + jsstring option" where
  "read_photo values =
     (case photoFile values of
        None \<Rightarrow> Inr None
      | Some f \<Rightarrow> (case fileToDataUrl f of Inl e \<Rightarrow> Inl e | Inr url \<Rightarrow> Inr (Some url)))"

definition submit_edit :: "jsstring \<Rightarrow> app \<Rightarrow> MemberFormValues \<Rightarrow> jsstring option \<Rightarrow> app" where
  "submit_edit eid st values dataUrl =
     st\<lparr> members := map (update_member eid values dataUrl) (members st),
         editingId := None,
         form := initialValues \<rparr>"

definition submit_create :: "id_env \<Rightarrow> app \<Rightarrow> MemberFormValues \<Rightarrow> jsstring option \<Rightarrow> app" where
  "submit_create env st values dataUrl =
     st\<lparr> members := members st @ [new_member (safeUUID env) values dataUrl],
         form := initialValues \<rparr>"

definition onSubmit :: "id_env \<Rightarrow> app \<Rightarrow> MemberFormValues \<Rightarrow> error + app" where
  "onSubmit env st values =
     (case read_photo values of
        Inl e \<Rightarrow> Inl e
      | Inr dataUrl \<Rightarrow>
          Inr (case editingId st of
                 Some eid \<Rightarrow>
                   if eid \<noteq> [] then submit_edit eid st values dataUrl
                   else submit_create env st values dataUrl
               | None \<Rightarrow> submit_create env st values dataUrl))"

text \<open>
  The rule the \<open>Controller\<close> of \<open>photoFile\<close> declares: required when \<open>editingId\<close> is
  falsy.
\<close>

definition photoFile_required :: "app \<Rightarrow> bool" where
  "photoFile_required st = (\<not> truthy (editingId st))"

text \<open>
  \<open>handleSubmit\<close> of a form made with \<open>useForm({ resolver: zodResolver(memberSchema) })\<close>:
  react-hook-form validates the form values through the resolver, and only through it: the
  rules declared on a field are evaluated only by a form without a resolver. On issues the
  submit function is not called.
\<close>

definition handleSubmit :: "id_env \<Rightarrow> app \<Rightarrow> error + app" where
  "handleSubmit env st =
     (case memberSchema (form st) of
        Inl issues \<Rightarrow> Inl (ValidationError issues)
      | Inr values \<Rightarrow> onSubmit env st values)"

definition onEdit :: "app \<Rightarrow> Member \<Rightarrow> app" where
  "onEdit st m =
     st\<lparr> editingId := Some (m_id m),
         form := \<lparr> prefix = m_prefix m,
                   firstName = m_firstName m,
                   lastName = m_lastName m,
                   photoFile = None,
                   workHistory = m_workHistory m,
                   ministerPosition = Some (or_empty (m_ministerPosition m)),
                   ministry = Some (or_empty (m_ministry m)),
                   party = m_party m \<rparr> \<rparr>"

definition onDelete :: "app \<Rightarrow> jsstring \<Rightarrow> app" where
  "onDelete st i =
     (let st' = st\<lparr> members := filter (\<lambda>m. m_id m \<noteq> i) (members st) \<rparr>
      in if editingId st = Some i
         then st'\<lparr> editingId := None, form := initialValues \<rparr>
         else st')"

section \<open>Classes of input and concrete inputs\<close>

text \<open>
  The code units that \<open>String.prototype.trim\<close> removes (ECMAScript's white space and line
  terminators), and the strings made of them only.
\<close>

definition is_whitespace :: "16 word \<Rightarrow> bool" where
  "is_whitespace c =
     (c \<in> {0x09, 0x0A, 0x0B, 0x0C, 0x0D, 0x20, 0xA0, 0x1680, 0x2028, 0x2029, 0x202F, 0x205F,
            0x3000, 0xFEFF}
      \<or> (0x2000 \<le> c \<and> c \<le> 0x200A))"

definition whitespace_only :: "jsstring \<Rightarrow> bool" where
  "whitespace_only s = (s \<noteq> [] \<and> list_all is_whitespace s)"

text \<open>A draft with every field filled in and no image.\<close>

definition somchai :: MemberFormValues where
  "somchai =
     \<lparr> prefix = prefix_nai, firstName = ascii ''Somchai'', lastName = ascii ''Sukjai'',
       photoFile = None, workHistory = ascii ''MP since 2019'',
       ministerPosition = Some [], ministry = Some [], party = ascii ''Demo Party'' \<rparr>"

text \<open>The same draft with another party.\<close>

definition somchai_moved :: MemberFormValues where
  "somchai_moved = somchai\<lparr> party := ascii ''New Party'' \<rparr>"

text \<open>A draft whose four required texts are one space each.\<close>

definition blank :: MemberFormValues where
  "blank =
     \<lparr> prefix = prefix_nai, firstName = [0x20], lastName = [0x20], photoFile = None,
       workHistory = [0x20], ministerPosition = Some [], ministry = Some [], party = [0x20] \<rparr>"

text \<open>A browser without \<open>crypto.randomUUID\<close>, and one with it.\<close>

definition fallback_env :: id_env where
  "fallback_env =
     \<lparr> randomUUID = None, date_now = 1700000000000, random_base36 = ascii ''0.abc123xyz'' \<rparr>"

definition crypto_env :: id_env where
  "crypto_env =
     \<lparr> randomUUID = Some (ascii ''3f2b8c1e-7a4d-4e2a-9c1b-5d6e7f8a9b0c''),
       date_now = 1700000000000, random_base36 = ascii ''0.abc123xyz'' \<rparr>"

text \<open>Two records that carry the same id, and a third one with an id of its own.\<close>

definition twin :: Member where
  "twin = new_member (ascii ''id_1700000000000_abc123'') somchai None"

definition twin_b :: Member where
  "twin_b = twin\<lparr> m_firstName := ascii ''Somsak'' \<rparr>"

definition other_member :: Member where
  "other_member = new_member (ascii ''id_1700000000001_k3v9q0'') somchai None"

text \<open>States of the application.\<close>

definition creating :: app where
  "creating = \<lparr> members = [], editingId = None, form = somchai \<rparr>"

definition seeded :: app where
  "seeded = \<lparr> members = [twin], editingId = None, form = somchai \<rparr>"

definition twins :: app where
  "twins = \<lparr> members = [twin, twin_b], editingId = None, form = initialValues \<rparr>"

definition roster :: app where
  "roster =
     \<lparr> members = [twin, other_member], editingId = Some (m_id twin), form = somchai_moved \<rparr>"

definition ghost_edit :: app where
  "ghost_edit = \<lparr> members = [twin], editingId = Some (ascii ''ghost''), form = somchai \<rparr>"

text \<open>A record with a photo, without \<open>ministerPosition\<close>, and with a quotation mark, a
  surrogate on its own, a backslash, a line feed and a control character in its name.\<close>

definition pictured :: Member where
  "pictured =
     \<lparr> m_id = ascii ''3f2b8c1e-7a4d-4e2a-9c1b-5d6e7f8a9b0c'', m_prefix = prefix_nang,
       m_firstName = [0x22, 0xD83D, 0x5C, 0x0A, 0x01], m_lastName = ascii ''Sukjai'',
       m_photo = Some (ascii ''data:image/png;base64,iVBORw0KGgo=''),
       m_workHistory = [0xD83D, 0xDE00], m_ministerPosition = None, m_ministry = Some [],
       m_party = ascii ''Demo Party'' \<rparr>"

definition album :: "Member list" where
  "album = [twin, pictured]"

definition browser_storage :: storage where
  "browser_storage = \<lparr> accessible = True, quota = 5242880, stored = None \<rparr>"

text \<open>A draft that changes every field: a new image, a minister's position, and
  \<open>ministry\<close> left \<open>undefined\<close>; and the second record of \<open>album\<close> being edited with it.\<close>

definition promoted :: MemberFormValues where
  "promoted =
     \<lparr> prefix = prefix_nang, firstName = ascii ''Somying'', lastName = ascii ''Sukjai'',
       photoFile = Some (Readable (ascii ''data:image/jpeg;base64,/9j/4AAQ'')),
       workHistory = ascii ''Senator'', ministerPosition = Some (ascii ''Minister''),
       ministry = None, party = ascii ''New Party'' \<rparr>"

definition editing_pictured :: app where
  "editing_pictured = \<lparr> members = album, editingId = Some (m_id pictured), form = promoted \<rparr>"

text \<open>A record whose id is the empty string, as an unchecked snapshot can hold it, and the
  state after \<open>onEdit\<close> of it with the party changed.\<close>

definition nameless :: Member where
  "nameless = twin\<lparr> m_id := [] \<rparr>"

definition editing_nameless :: app where
  "editing_nameless = \<lparr> members = [nameless], editingId = Some [], form = somchai_moved \<rparr>"

text \<open>The edit of an absent id with an image that cannot be read.\<close>

definition ghost_edit_unreadable :: app where
  "ghost_edit_unreadable = ghost_edit\<lparr> form := somchai\<lparr> photoFile := Some Unreadable \<rparr> \<rparr>"

section \<open>Shapes of values used in the proofs\<close>

definition is_JString :: "json \<Rightarrow> bool" where
  "is_JString v = (case v of JString s \<Rightarrow> True | _ \<Rightarrow> False)"

text \<open>An object of at least one and at most \<open>b\<close> properties, with distinct keys and
  strings for values.\<close>

definition flat_object :: "nat \<Rightarrow> json \<Rightarrow> bool" where
  "flat_object b v =
     (case v of
        JObject kvs \<Rightarrow>
          kvs \<noteq> [] \<and> length kvs \<le> b \<and> distinct (map fst kvs)
          \<and> list_all (\<lambda>kv. is_JString (snd kv)) kvs
      | _ \<Rightarrow> False)"

section \<open>Facts about the schema and the submit handler\<close>

lemma schema_issues_Nil_iff:
  "schema_issues d = [] \<longleftrightarrow>
     prefix d \<in> set prefix_enum \<and> firstName d \<noteq> [] \<and> lastName d \<noteq> []
     \<and> workHistory d \<noteq> [] \<and> party d \<noteq> []"
  by (auto simp: schema_issues_def min1_def Suc_le_eq)

lemma memberSchema_Inr_iff:
  "memberSchema d = Inr v \<longleftrightarrow>
     v = d \<and> prefix d \<in> set prefix_enum \<and> firstName d \<noteq> [] \<and> lastName d \<noteq> []
     \<and> workHistory d \<noteq> [] \<and> party d \<noteq> []"
  by (auto simp: memberSchema_def schema_issues_Nil_iff)

lemma prefix_nai_in_enum: "prefix_nai \<in> set prefix_enum"
  by (simp add: prefix_enum_def)

lemma memberSchema_somchai: "memberSchema somchai = Inr somchai"
  by (simp add: memberSchema_Inr_iff somchai_def prefix_nai_in_enum ascii_def)

lemma read_photo_somchai: "read_photo somchai = Inr None"
  by (simp add: read_photo_def somchai_def)

lemma safeUUID_fallback_env: "safeUUID fallback_env = ascii ''id_1700000000000_abc123''"
  by (simp add: safeUUID_def fallback_env_def decimal.simps ascii_def)

lemma m_id_twin: "m_id twin = ascii ''id_1700000000000_abc123''"
  by (simp add: twin_def new_member_def)

lemma m_id_other_member: "m_id other_member = ascii ''id_1700000000001_k3v9q0''"
  by (simp add: other_member_def new_member_def)

lemma handleSubmit_create:
  assumes "memberSchema (form st) = Inr values" and "\<not> truthy (editingId st)"
    and "read_photo values = Inr dataUrl"
  shows "handleSubmit env st = Inr (submit_create env st values dataUrl)"
  using assms by (cases "editingId st") (auto simp: handleSubmit_def onSubmit_def)

lemma handleSubmit_edit:
  assumes "memberSchema (form st) = Inr values" and "editingId st = Some eid" and "eid \<noteq> []"
    and "read_photo values = Inr dataUrl"
  shows "handleSubmit env st = Inr (submit_edit eid st values dataUrl)"
  using assms by (auto simp: handleSubmit_def onSubmit_def)

lemma members_onDelete: "members (onDelete st i) = filter (\<lambda>m. m_id m \<noteq> i) (members st)"
  by (simp add: onDelete_def Let_def)

lemma editingId_onDelete:
  "editingId (onDelete st i) = (if editingId st = Some i then None else editingId st)"
  by (simp add: onDelete_def Let_def)

lemma form_onDelete:
  "form (onDelete st i) = (if editingId st = Some i then initialValues else form st)"
  by (simp add: onDelete_def Let_def)

lemma filter_distinct_one:
  "distinct (map f xs) \<Longrightarrow> i \<in> f ` set xs \<Longrightarrow>
     length (filter (\<lambda>x. f x \<noteq> i) xs) + 1 = length xs"
proof (induction xs)
  case Nil
  then show ?case by simp
next
  case (Cons x xs)
  show ?case
  proof (cases "f x = i")
    case True
    with Cons.prems have "i \<notin> f ` set xs" by auto
    then have "filter (\<lambda>x. f x \<noteq> i) xs = xs"
      by (auto simp: filter_id_conv)
    with True show ?thesis by simp
  next
    case False
    with Cons show ?thesis by auto
  qed
qed

lemma read_photo_cases:
  "read_photo values =
     (case photoFile values of
        None \<Rightarrow> Inr None
      | Some (Readable url) \<Rightarrow> Inr (Some url)
      | Some Unreadable \<Rightarrow> Inl ImageReadError)"
  by (simp add: read_photo_def fileToDataUrl_def split: option.splits File.splits)

lemma handleSubmit_unreadable:
  assumes "memberSchema (form st) = Inr values" and "photoFile values = Some Unreadable"
  shows "handleSubmit env st = Inl ImageReadError"
  using assms by (simp add: handleSubmit_def onSubmit_def read_photo_cases)

lemma memberSchema_promoted: "memberSchema promoted = Inr promoted"
  by (simp add: memberSchema_Inr_iff promoted_def prefix_enum_def ascii_def)

lemma m_id_pictured: "m_id pictured = ascii ''3f2b8c1e-7a4d-4e2a-9c1b-5d6e7f8a9b0c''"
  by (simp add: pictured_def)

section \<open>Facts about JSON.stringify and JSON.parse\<close>

subsection \<open>Strings\<close>

lemma unat_hexdigit: "d < 16 \<Longrightarrow> unat (hexdigit d) = (if d < 10 then 48 + d else 87 + d)"
  by (simp add: hexdigit_def unat_of_nat)

lemma hexval_hexdigit: "d < 16 \<Longrightarrow> hexval (hexdigit d) = Some d"
  by (auto simp: hexval_def word_le_nat_alt unat_hexdigit)

lemma nibbles_join:
  "((n div 4096 * 16 + n div 256 mod 16) * 16 + n div 16 mod 16) * 16 + n mod 16 = (n::nat)"
proof -
  have a: "n div 4096 = n div 256 div 16" and b: "n div 256 = n div 16 div 16"
    by (simp_all add: div_mult2_eq [symmetric])
  have "n div 4096 * 16 + n div 256 mod 16 = n div 256"
    unfolding a by (rule div_mult_mod_eq)
  moreover have "n div 256 * 16 + n div 16 mod 16 = n div 16"
    unfolding b by (rule div_mult_mod_eq)
  moreover have "n div 16 * 16 + n mod 16 = n"
    by (rule div_mult_mod_eq)
  ultimately show ?thesis by simp
qed

lemma hex4_hexdigits:
  assumes "a < 16" "b < 16" "c < 16" "d < 16"
  shows "hex4 (hexdigit a) (hexdigit b) (hexdigit c) (hexdigit d)
           = Some (of_nat (((a * 16 + b) * 16 + c) * 16 + d))"
  unfolding hex4_def by (simp only: hexval_hexdigit assms prod.case option.case)

lemma hex4_UnicodeEscape:
  "hex4 (hexdigit (unat c div 4096)) (hexdigit (unat c div 256 mod 16))
        (hexdigit (unat c div 16 mod 16)) (hexdigit (unat c mod 16)) = Some c"
proof -
  have "unat c < 65536" using unsigned_less [of c, where ?'a = nat] by simp
  then have "unat c div 4096 < 16" by simp
  then have "hex4 (hexdigit (unat c div 4096)) (hexdigit (unat c div 256 mod 16))
        (hexdigit (unat c div 16 mod 16)) (hexdigit (unat c mod 16))
      = Some (of_nat (((unat c div 4096 * 16 + unat c div 256 mod 16) * 16
                         + unat c div 16 mod 16) * 16 + unat c mod 16))"
    by (intro hex4_hexdigits) simp_all
  also have "\<dots> = Some (of_nat (unat c))"
    by (simp only: nibbles_join)
  finally show ?thesis by simp
qed


lemma parse_chars_plain:
  "c \<noteq> 0x22 \<Longrightarrow> c \<noteq> 0x5C \<Longrightarrow> \<not> c < 0x20 \<Longrightarrow>
     parse_chars (c # cs) = cons_result c (parse_chars cs)"
  by simp

lemma parse_chars_UnicodeEscape:
  "parse_chars (UnicodeEscape c @ cs) = cons_result c (parse_chars cs)"
  by (simp add: UnicodeEscape_def hex4_UnicodeEscape)

lemma parse_chars_quote_unit:
  "parse_chars (quote_unit c @ cs) = cons_result c (parse_chars cs)"
  unfolding quote_unit_def
  by (auto simp: unescape_def parse_chars_UnicodeEscape simp del: parse_chars.simps)
     (simp_all add: unescape_def)

lemma surrogate_is_plain:
  "is_leading_surrogate c \<or> is_trailing_surrogate c \<Longrightarrow>
     c \<noteq> 0x22 \<and> c \<noteq> 0x5C \<and> \<not> c < 0x20"
  by (auto simp: is_leading_surrogate_def is_trailing_surrogate_def word_le_nat_alt
      word_less_nat_alt)

declare parse_chars.simps [simp del]

lemma parse_chars_quote_units:
  "parse_chars (quote_units s @ 0x22 # rest) = Some (s, rest)"
proof (induction s rule: quote_units.induct)
  case 1
  show ?case by (simp add: parse_chars.simps)
next
  case (2 c)
  show ?case
    by (simp add: parse_chars_UnicodeEscape parse_chars_quote_unit cons_result_def
        parse_chars.simps)
next
  case (3 c d cs)
  show ?case
  proof (cases "is_leading_surrogate c \<and> is_trailing_surrogate d")
    case True
    then have "parse_chars (c # d # quote_units cs @ 0x22 # rest)
                 = cons_result c (cons_result d (parse_chars (quote_units cs @ 0x22 # rest)))"
      using surrogate_is_plain [of c] surrogate_is_plain [of d]
      by (simp add: parse_chars_plain)
    with True 3 show ?thesis by (simp add: cons_result_def)
  next
    case False
    with 3 show ?thesis
      by (auto simp: parse_chars_UnicodeEscape parse_chars_quote_unit cons_result_def)
  qed
qed

subsection \<open>The bound of the parser\<close>

text \<open>
  Whatever a parsing function reads, it reads at least one character; so the calls nest no
  deeper than the bound that \<open>JSON_parse\<close> gives, and a larger bound changes no
  result.
\<close>

lemma length_skip_ws: "length (skip_ws cs) \<le> length cs"
  by (simp add: skip_ws_def length_dropWhile_le)

lemma cons_result_Some:
  "cons_result x r = Some (ys, rest) \<longleftrightarrow> (\<exists>xs. r = Some (xs, rest) \<and> ys = x # xs)"
  by (auto simp: cons_result_def split: option.splits)

lemma parse_chars_shorter: "parse_chars cs = Some (s, r) \<Longrightarrow> length r < length cs"
proof (induction cs arbitrary: s r rule: parse_chars.induct)
  case 1
  then show ?case by (simp add: parse_chars.simps)
next
  case (2 c cs)
  show ?case
    using "2.prems" "2.IH"
    by (subst (asm) parse_chars.simps)
      (fastforce simp: cons_result_Some split: if_splits list.splits option.splits)
qed

lemma length_digits: "length (snd (digits cs)) \<le> length cs"
  by (simp add: digits_def length_dropWhile_le)

lemma scan_minus_length: "scan_minus cs = (m, r) \<Longrightarrow> length r \<le> length cs"
  by (auto simp: scan_minus_def split: list.splits if_splits)

lemma scan_sign_length: "scan_sign cs = (m, r) \<Longrightarrow> length r \<le> length cs"
  by (auto simp: scan_sign_def split: list.splits if_splits)

lemma scan_integer_shorter: "scan_integer cs = Some (i, r) \<Longrightarrow> length r < length cs"
  using length_digits [of "tl cs"]
  by (auto simp: scan_integer_def split: list.splits if_splits)

lemma scan_fraction_length: "scan_fraction cs = Some (f, r) \<Longrightarrow> length r \<le> length cs"
  using length_digits [of "tl cs"]
  by (auto simp: scan_fraction_def split: list.splits if_splits)

lemma scan_exponent_length: "scan_exponent cs = Some (e, r) \<Longrightarrow> length r \<le> length cs"
proof (cases cs)
  case Nil
  then show "scan_exponent cs = Some (e, r) \<Longrightarrow> length r \<le> length cs"
    by (simp add: scan_exponent_def)
next
  case (Cons c cs')
  obtain sg r1 where sg: "scan_sign cs' = (sg, r1)" by (cases "scan_sign cs'")
  assume "scan_exponent cs = Some (e, r)"
  then show "length r \<le> length cs"
    using scan_sign_length [OF sg] length_digits [of r1]
    by (auto simp: scan_exponent_def Cons sg split: if_splits)
qed

lemma scan_number_shorter:
  assumes "scan_number cs = Some (n, r)"
  shows "length r < length cs"
proof -
  obtain m r0 where m: "scan_minus cs = (m, r0)" by (cases "scan_minus cs")
  from assms obtain i r1 f r2 e where
    "scan_integer r0 = Some (i, r1)" "scan_fraction r1 = Some (f, r2)"
    "scan_exponent r2 = Some (e, r)"
    by (auto simp: scan_number_def m split: option.splits)
  then show ?thesis
    using scan_minus_length [OF m] scan_integer_shorter scan_fraction_length
      scan_exponent_length
    by fastforce
qed

lemma take_eq_length: "take k cs = xs \<Longrightarrow> length xs = k \<Longrightarrow> k \<le> length cs"
  by (metis length_take min.cobounded1 min_def)

lemma parse_scalar_shorter:
  assumes "parse_scalar cs = Some (v, r)"
  shows "length r < length cs"
proof -
  have n: "4 \<le> length cs" if "take 4 cs = ascii ''null''"
    using take_eq_length [OF that] by (simp add: ascii_def)
  have t: "4 \<le> length cs" if "take 4 cs = ascii ''true''"
    using take_eq_length [OF that] by (simp add: ascii_def)
  have f: "5 \<le> length cs" if "take 5 cs = ascii ''false''"
    using take_eq_length [OF that] by (simp add: ascii_def)
  show ?thesis
    using assms n t f scan_number_shorter [of cs]
    by (auto simp: parse_scalar_def split: if_splits option.splits)
qed

lemma skip_ws_shorter: "skip_ws cs = c # t \<Longrightarrow> length t < length cs"
  using length_skip_ws [of cs] by simp

lemma parse_shorter:
  "(\<forall>cs v r. parse_value n cs = Some (v, r) \<longrightarrow> length r < length cs)
   \<and> (\<forall>cs vs r. parse_elements n cs = Some (vs, r) \<longrightarrow> length r < length cs)
   \<and> (\<forall>cs kvs r. parse_members n cs = Some (kvs, r) \<longrightarrow> length r < length cs)"
proof (induction n)
  case 0
  show ?case by simp
next
  case (Suc n)
  have V: "length r < length cs" if "parse_value n cs = Some (v, r)" for cs v r
    using Suc that by blast
  have E: "length r < length cs" if "parse_elements n cs = Some (vs, r)" for cs vs r
    using Suc that by blast
  have M: "length r < length cs" if "parse_members n cs = Some (kvs, r)" for cs kvs r
    using Suc that by blast
  have "length r < length cs" if "parse_value (Suc n) cs = Some (v, r)" for cs v r
    using that
    by (auto simp: cons_result_Some split: list.splits if_splits option.splits
        dest!: skip_ws_shorter parse_chars_shorter parse_scalar_shorter E M)
  moreover have "length r < length cs" if "parse_elements (Suc n) cs = Some (vs, r)" for cs vs r
    using that
    by (auto simp: cons_result_Some split: list.splits if_splits option.splits
        dest!: skip_ws_shorter V E)
  moreover have "length r < length cs" if "parse_members (Suc n) cs = Some (kvs, r)" for cs kvs r
    using that
    by (auto simp: cons_result_Some split: list.splits if_splits option.splits
        dest!: skip_ws_shorter parse_chars_shorter V M)
  ultimately show ?case by blast
qed

lemma parse_value_shorter: "parse_value n cs = Some (v, r) \<Longrightarrow> length r < length cs"
  using parse_shorter [of n] by blast

lemma fuel_enough:
  "(\<forall>cs m. 2 * length cs + 1 \<le> n \<and> 2 * length cs + 1 \<le> m \<longrightarrow>
       parse_value n cs = parse_value m cs)
   \<and> (\<forall>cs m. 2 * length cs + 2 \<le> n \<and> 2 * length cs + 2 \<le> m \<longrightarrow>
       parse_elements n cs = parse_elements m cs)
   \<and> (\<forall>cs m. 2 * length cs + 2 \<le> n \<and> 2 * length cs + 2 \<le> m \<longrightarrow>
       parse_members n cs = parse_members m cs)"
proof (induction n)
  case 0
  show ?case by simp
next
  case (Suc n)
  have V: "parse_value n cs = parse_value m cs"
    if "2 * length cs + 1 \<le> n" "2 * length cs + 1 \<le> m" for cs m
    using Suc that by blast
  have E: "parse_elements n cs = parse_elements m cs"
    if "2 * length cs + 2 \<le> n" "2 * length cs + 2 \<le> m" for cs m
    using Suc that by blast
  have M: "parse_members n cs = parse_members m cs"
    if "2 * length cs + 2 \<le> n" "2 * length cs + 2 \<le> m" for cs m
    using Suc that by blast
  have VS: "parse_value (Suc n) cs = parse_value (Suc m) cs"
    if b: "2 * length cs + 1 \<le> Suc n" "2 * length cs + 1 \<le> Suc m" for cs m
  proof (cases "skip_ws cs")
    case Nil
    then show ?thesis by (simp only: parse_value.simps list.case)
  next
    case c: (Cons c t)
    show ?thesis
    proof (cases "skip_ws t")
      case Nil
      then show ?thesis by (simp only: parse_value.simps c list.case)
    next
      case c': (Cons c' t')
      have "length (c' # t') < length cs"
        using skip_ws_shorter [OF c] length_skip_ws [of t] by (simp add: c')
      then have "2 * length (c' # t') + 2 \<le> n" "2 * length (c' # t') + 2 \<le> m"
        using b by simp_all
      then have eq: "parse_members n (c' # t') = parse_members m (c' # t')"
        "parse_elements n (c' # t') = parse_elements m (c' # t')"
        by (rule M, rule E)
      show ?thesis by (simp only: parse_value.simps c c' list.case eq)
    qed
  qed
  have ES: "parse_elements (Suc n) cs = parse_elements (Suc m) cs"
    if b: "2 * length cs + 2 \<le> Suc n" "2 * length cs + 2 \<le> Suc m" for cs m
  proof -
    have v: "parse_value n cs = parse_value m cs"
      using b by (intro V) simp_all
    show ?thesis
    proof (cases "parse_value m cs")
      case None
      then show ?thesis by (simp only: parse_elements.simps v option.case)
    next
      case (Some vr)
      obtain v' r where vr: "vr = (v', r)" by (cases vr)
      have r: "length r < length cs"
        using Some vr parse_value_shorter by blast
      show ?thesis
      proof (cases "skip_ws r")
        case Nil
        then show ?thesis
          by (simp only: parse_elements.simps v Some vr option.case prod.case list.case)
      next
        case (Cons c r')
        have "length r' < length r"
          using Cons by (rule skip_ws_shorter)
        then have eq: "parse_elements n r' = parse_elements m r'"
          using r b by (intro E) simp_all
        show ?thesis
          by (simp only: parse_elements.simps v Some vr Cons option.case prod.case list.case eq)
      qed
    qed
  qed
  have MS: "parse_members (Suc n) cs = parse_members (Suc m) cs"
    if b: "2 * length cs + 2 \<le> Suc n" "2 * length cs + 2 \<le> Suc m" for cs m
  proof (cases "skip_ws cs")
    case Nil
    then show ?thesis by (simp only: parse_members.simps list.case)
  next
    case c: (Cons c t)
    have t: "length t < length cs"
      using c by (rule skip_ws_shorter)
    show ?thesis
    proof (cases "parse_chars t")
      case None
      then show ?thesis by (simp only: parse_members.simps c list.case option.case)
    next
      case (Some kr)
      obtain k r1 where kr: "kr = (k, r1)" by (cases kr)
      have r1: "length r1 < length t"
        using Some kr parse_chars_shorter by blast
      show ?thesis
      proof (cases "skip_ws r1")
        case Nil
        then show ?thesis
          by (simp only: parse_members.simps c Some kr list.case option.case prod.case)
      next
        case c1: (Cons c1 r2)
        have r2: "length r2 < length r1"
          using c1 by (rule skip_ws_shorter)
        have v: "parse_value n r2 = parse_value m r2"
          using t r1 r2 b by (intro V) simp_all
        show ?thesis
        proof (cases "parse_value m r2")
          case None
          then show ?thesis
            by (simp only: parse_members.simps c Some kr c1 v list.case option.case prod.case)
        next
          case v3: (Some vr)
          obtain v' r3 where vr: "vr = (v', r3)" by (cases vr)
          have r3: "length r3 < length r2"
            using v3 vr parse_value_shorter by blast
          show ?thesis
          proof (cases "skip_ws r3")
            case Nil
            then show ?thesis
              by (simp only: parse_members.simps c Some kr c1 v v3 vr list.case option.case
                  prod.case)
          next
            case c3: (Cons c3 r4)
            have "length r4 < length r3"
              using c3 by (rule skip_ws_shorter)
            then have eq: "parse_members n r4 = parse_members m r4"
              using t r1 r2 r3 b by (intro M) simp_all
            show ?thesis
              by (simp only: parse_members.simps c Some kr c1 v v3 vr c3 list.case option.case
                  prod.case eq)
          qed
        qed
      qed
    qed
  qed
  show ?case
  proof (intro conjI allI impI)
    fix cs :: jsstring and m
    assume a: "2 * length cs + 1 \<le> Suc n \<and> 2 * length cs + 1 \<le> m"
    then obtain m' where m: "m = Suc m'" by (cases m) auto
    show "parse_value (Suc n) cs = parse_value m cs"
      unfolding m using a by (intro VS) (simp_all add: m)
  next
    fix cs :: jsstring and m
    assume a: "2 * length cs + 2 \<le> Suc n \<and> 2 * length cs + 2 \<le> m"
    then obtain m' where m: "m = Suc m'" by (cases m) auto
    show "parse_elements (Suc n) cs = parse_elements m cs"
      unfolding m using a by (intro ES) (simp_all add: m)
  next
    fix cs :: jsstring and m
    assume a: "2 * length cs + 2 \<le> Suc n \<and> 2 * length cs + 2 \<le> m"
    then obtain m' where m: "m = Suc m'" by (cases m) auto
    show "parse_members (Suc n) cs = parse_members m cs"
      unfolding m using a by (intro MS) (simp_all add: m)
  qed
qed

lemma JSON_parse_bound:
  "2 * length text + 1 \<le> m \<Longrightarrow>
     JSON_parse text
       = (case parse_value m text of
            None \<Rightarrow> None
          | Some (v, rest) \<Rightarrow> if skip_ws rest = [] then Some v else None)"
  using fuel_enough [of "2 * length text + 1"] by (simp add: JSON_parse_def)

subsection \<open>Objects and arrays of member records\<close>

lemma skip_ws_Cons: "\<not> is_json_ws c \<Longrightarrow> skip_ws (c # cs) = c # cs"
  by (simp add: skip_ws_def)

lemma skip_ws_punct [simp]:
  "skip_ws (0x22 # cs) = 0x22 # cs" "skip_ws (0x2C # cs) = 0x2C # cs"
  "skip_ws (0x3A # cs) = 0x3A # cs" "skip_ws (0x5B # cs) = 0x5B # cs"
  "skip_ws (0x5D # cs) = 0x5D # cs" "skip_ws (0x7B # cs) = 0x7B # cs"
  "skip_ws (0x7D # cs) = 0x7D # cs"
  by (simp_all add: skip_ws_def is_json_ws_def)

lemma parse_value_string:
  "parse_value (Suc n) (0x22 # quote_units s @ 0x22 # rest) = Some (JString s, rest)"
  by (simp add: parse_chars_quote_units)

declare parse_value.simps [simp del]

lemma parse_members_strings:
  assumes "list_all (\<lambda>kv. is_JString (snd kv)) kvs" and "kvs \<noteq> []" and "length kvs < n"
  shows "parse_members n
           (join_comma (map (\<lambda>(k, v). QuoteJSONString k @ 0x3A # SerializeJSONProperty v) kvs)
              @ 0x7D # rest)
         = Some (kvs, rest)"
  using assms
proof (induction kvs arbitrary: n)
  case Nil
  then show ?case by simp
next
  case (Cons kv kvs)
  obtain k s where kv: "kv = (k, JString s)"
    using Cons.prems(1) by (cases kv; cases "snd kv") (auto simp: is_JString_def)
  obtain n' where n: "n = Suc (Suc n')"
    using Cons.prems(3) by (cases n; cases "n - 1") auto
  show ?case
  proof (cases kvs)
    case Nil
    then show ?thesis
      by (simp add: kv n parse_value_string QuoteJSONString_def parse_chars_quote_units)
  next
    case (Cons kv' kvs')
    have "parse_members (Suc n')
            (join_comma (map (\<lambda>(k, v). QuoteJSONString k @ 0x3A # SerializeJSONProperty v) kvs)
               @ 0x7D # rest)
          = Some (kvs, rest)"
      using Cons.prems Cons.IH [of "Suc n'"] Cons by (simp add: n)
    then show ?thesis
      by (simp add: kv n Cons parse_value_string QuoteJSONString_def parse_chars_quote_units
          cons_result_def)
  qed
qed


lemma update_fresh: "k \<notin> fst ` set al \<Longrightarrow> AList.update k v al = al @ [(k, v)]"
  by (induction al) auto

lemma fold_update_distinct:
  "distinct (map fst kvs) \<Longrightarrow> fst ` set acc \<inter> fst ` set kvs = {} \<Longrightarrow>
     fold (\<lambda>(k, v). AList.update k v) kvs acc = acc @ kvs"
proof (induction kvs arbitrary: acc)
  case Nil
  then show ?case by simp
next
  case (Cons kv kvs)
  obtain k v where kv: "kv = (k, v)" by (cases kv)
  have fresh: "k \<notin> fst ` set acc"
    using Cons.prems(2) by (auto simp: kv)
  have "fst ` set (acc @ [(k, v)]) \<inter> fst ` set kvs = {}"
    using Cons.prems by (auto simp: kv)
  then have "fold (\<lambda>(k, v). AList.update k v) kvs (acc @ [(k, v)]) = (acc @ [(k, v)]) @ kvs"
    using Cons.prems(1) by (intro Cons.IH) simp_all
  then show ?case
    by (simp add: kv update_fresh [OF fresh])
qed

lemma join_comma_head:
  "join_comma ((c # x) # xs) = c # join_comma (x # xs)"
  by (cases xs) simp_all

lemma parse_value_flat_object:
  assumes "flat_object b v" and "b < n"
  shows "parse_value (Suc n) (SerializeJSONProperty v @ rest) = Some (v, rest)"
proof -
  obtain kvs where v: "v = JObject kvs" and ne: "kvs \<noteq> []" and len: "length kvs \<le> b"
    and dist: "distinct (map fst kvs)" and strs: "list_all (\<lambda>kv. is_JString (snd kv)) kvs"
    using assms(1) by (cases v) (auto simp: flat_object_def)
  let ?text = "join_comma (map (\<lambda>(k, v). QuoteJSONString k @ 0x3A # SerializeJSONProperty v) kvs)"
  obtain t where head: "?text = 0x22 # t"
    using ne by (cases kvs) (auto simp: QuoteJSONString_def join_comma_head)
  have "parse_members n (?text @ 0x7D # rest) = Some (kvs, rest)"
    using strs ne len assms(2) by (intro parse_members_strings) simp_all
  moreover have "fold (\<lambda>(k, v). AList.update k v) kvs [] = kvs"
    using fold_update_distinct [OF dist, of "[]"] by simp
  ultimately show ?thesis
    using head by (simp add: v parse_value.simps)
qed

lemma parse_elements_flat_objects:
  assumes "list_all (flat_object b) vs" and "vs \<noteq> []" and "length vs + b + 1 < n"
  shows "parse_elements n (join_comma (map SerializeJSONProperty vs) @ 0x5D # rest)
         = Some (vs, rest)"
  using assms
proof (induction vs arbitrary: n)
  case Nil
  then show ?case by simp
next
  case (Cons v vs)
  obtain n' where n: "n = Suc (Suc n')" and n': "b < n'"
    using Cons.prems(3) by (cases n; cases "n - 1") auto
  have v: "parse_value (Suc n') (SerializeJSONProperty v @ r) = Some (v, r)" for r
    using Cons.prems(1) n' by (intro parse_value_flat_object) simp_all
  show ?case
  proof (cases vs)
    case Nil
    then show ?thesis
      by (simp add: n v)
  next
    case (Cons v' vs')
    have "parse_elements (Suc n') (join_comma (map SerializeJSONProperty vs) @ 0x5D # rest)
          = Some (vs, rest)"
      using Cons.prems Cons.IH [of "Suc n'"] Cons by (simp add: n)
    then show ?thesis
      by (simp add: n v Cons cons_result_def)
  qed
qed

lemma length_join_comma: "sum_list (map length xs) \<le> length (join_comma xs)"
  by (induction xs rule: join_comma.induct) simp_all

lemma length_flat_object:
  assumes "flat_object b v"
  shows "7 \<le> length (SerializeJSONProperty v)"
proof -
  obtain kv kvs where v: "v = JObject (kv # kvs)"
    using assms by (cases v) (auto simp: flat_object_def neq_Nil_conv)
  obtain k s where kv: "kv = (k, JString s)"
    using assms by (cases kv; cases "snd kv") (auto simp: v flat_object_def is_JString_def)
  let ?f = "\<lambda>(k, v). QuoteJSONString k @ 0x3A # SerializeJSONProperty v"
  have "5 \<le> sum_list (map length (map ?f (kv # kvs)))"
    by (simp add: kv QuoteJSONString_def)
  also have "\<dots> \<le> length (join_comma (map ?f (kv # kvs)))"
    by (rule length_join_comma)
  finally show ?thesis
    by (simp add: v)
qed

lemma length_flat_objects:
  assumes "list_all (flat_object b) vs"
  shows "7 * length vs \<le> length (join_comma (map SerializeJSONProperty vs))"
proof -
  have "7 * length vs \<le> sum_list (map length (map SerializeJSONProperty vs))"
    using assms by (induction vs) (auto dest: length_flat_object)
  also have "\<dots> \<le> length (join_comma (map SerializeJSONProperty vs))"
    by (rule length_join_comma)
  finally show ?thesis .
qed

lemma JSON_parse_flat_array:
  assumes "list_all (flat_object 9) vs"
  shows "JSON_parse (JSON_stringify (JArray vs)) = Some (JArray vs)"
proof (cases vs)
  case Nil
  have "parse_value (Suc n) [0x5B, 0x5D] = Some (JArray [], [])" for n
    by (simp add: parse_value.simps)
  from this [of 4] show ?thesis
    using Nil by (simp add: JSON_parse_def JSON_stringify_def skip_ws_def)
next
  case (Cons v vs')
  let ?body = "join_comma (map SerializeJSONProperty vs)"
  let ?n = "2 * length (0x5B # ?body @ [0x5D :: 16 word])"
  have "flat_object 9 v"
    using assms Cons by simp
  then obtain kvs where "v = JObject kvs"
    by (cases v) (auto simp: flat_object_def)
  then obtain t where head: "?body = 0x7B # t"
    by (auto simp: Cons join_comma_head)
  have ne: "vs \<noteq> []"
    using Cons by simp
  have "7 * length vs \<le> length ?body"
    using assms by (rule length_flat_objects)
  moreover have "length vs = Suc (length vs')"
    using Cons by simp
  moreover have "length (0x5B # ?body @ [0x5D :: 16 word]) = length ?body + 2"
    by simp
  ultimately have fuel: "length vs + 9 + 1 < ?n"
    by linarith
  have "parse_elements ?n (?body @ 0x5D # []) = Some (vs, [])"
    using assms ne fuel by (rule parse_elements_flat_objects)
  then have "parse_value (Suc ?n) (0x5B # ?body @ [0x5D]) = Some (JArray vs, [])"
    using head by (simp add: parse_value.simps)
  then show ?thesis
    by (simp add: JSON_parse_def JSON_stringify_def skip_ws_def)
qed

lemma defined_properties_keys: "fst ` set (defined_properties ps) \<subseteq> fst ` set ps"
  by (induction ps rule: defined_properties.induct) auto

lemma defined_properties_distinct:
  "distinct (map fst ps) \<Longrightarrow> distinct (map fst (defined_properties ps))"
proof (induction ps rule: defined_properties.induct)
  case 1
  show ?case by simp
next
  case (2 k ps)
  then show ?case by simp
next
  case (3 k s ps)
  moreover have "k \<notin> fst ` set (defined_properties ps)"
    using 3(2) defined_properties_keys [of ps] by auto
  ultimately show ?case by simp
qed

lemma defined_properties_length: "length (defined_properties ps) \<le> length ps"
  by (induction ps rule: defined_properties.induct) auto

lemma defined_properties_strings:
  "list_all (\<lambda>kv. is_JString (snd kv)) (defined_properties ps)"
  by (induction ps rule: defined_properties.induct) (auto simp: is_JString_def)

lemma own_properties_distinct: "distinct (map fst (own_properties m))"
  by (simp add: own_properties_def ascii_def)

lemma flat_object_json_of_member: "flat_object 9 (json_of_member m)"
proof -
  have "defined_properties (own_properties m) \<noteq> []"
    by (simp add: own_properties_def)
  moreover have "length (defined_properties (own_properties m)) \<le> 9"
    using defined_properties_length [of "own_properties m"] by (simp add: own_properties_def)
  ultimately show ?thesis
    by (simp add: flat_object_def json_of_member_def defined_properties_distinct
        own_properties_distinct defined_properties_strings)
qed

lemma as_Member_json_of_member: "as_Member (json_of_member m) = Some m"
  by (cases "m_photo m"; cases "m_ministerPosition m"; cases "m_ministry m")
    (simp_all add: json_of_member_def own_properties_def required_string_def
      optional_string_def ascii_def)

lemma as_Member_array_members_value: "as_Member_array (members_value ms) = Some ms"
  by (induction ms) (simp_all add: members_value_def as_Member_json_of_member)

lemma JSON_parse_stringify_members:
  "JSON_parse (JSON_stringify (members_value ms)) = Some (members_value ms)"
  unfolding members_value_def
  by (rule JSON_parse_flat_array) (simp add: list_all_iff flat_object_json_of_member)

section \<open>C1: the id of a created record\<close>

text \<open>
  C1 says that a create appends a record whose id differs from every id already in the
  collection. The creating branch takes the id from \<open>safeUUID\<close> and compares it with
  nothing. Stated as what the code does: a submit of a valid draft while \<open>editingId\<close> is
  falsy, with the image (if any) read, appends exactly one record, whose id is the value of
  \<open>safeUUID\<close>; when that value is the id of no record of the collection, the new id
  differs from all of them, and ids that were pairwise distinct stay so.
\<close>

theorem create_appends_generated_id:
  assumes "memberSchema (form st) = Inr values" and "\<not> truthy (editingId st)"
    and "read_photo values = Inr dataUrl"
  shows "\<exists>st'. handleSubmit env st = Inr st'
           \<and> members st' = members st @ [new_member (safeUUID env) values dataUrl]
           \<and> m_id (last (members st')) = safeUUID env
           \<and> (safeUUID env \<notin> m_id ` set (members st) \<longrightarrow>
                (\<forall>m \<in> set (members st). m_id m \<noteq> m_id (last (members st'))))
           \<and> (safeUUID env \<notin> m_id ` set (members st) \<and> distinct (map m_id (members st)) \<longrightarrow>
                distinct (map m_id (members st')))"
proof -
  let ?new = "new_member (safeUUID env) values dataUrl"
  let ?st' = "submit_create env st values dataUrl"
  have run: "handleSubmit env st = Inr ?st'"
    by (rule handleSubmit_create [OF assms])
  have ms: "members ?st' = members st @ [?new]"
    by (simp add: submit_create_def)
  have nid: "m_id ?new = safeUUID env"
    by (simp add: new_member_def)
  have fresh: "\<forall>m \<in> set (members st). m_id m \<noteq> m_id (last (members ?st'))"
    if "safeUUID env \<notin> m_id ` set (members st)"
    using that by (auto simp: ms nid image_iff)
  have dist: "distinct (map m_id (members ?st'))"
    if "safeUUID env \<notin> m_id ` set (members st)" "distinct (map m_id (members st))"
    using that by (simp add: ms nid)
  show ?thesis
    using run ms nid fresh dist by (intro exI [of _ ?st']) simp
qed

text \<open>The theorem at a collection of one record and a browser with \<open>crypto.randomUUID\<close>.\<close>

theorem create_appends_generated_id_witness:
  "memberSchema (form seeded) = Inr somchai \<and> \<not> truthy (editingId seeded)
   \<and> read_photo somchai = Inr None
   \<and> safeUUID crypto_env \<notin> m_id ` set (members seeded)
   \<and> distinct (map m_id (members seeded))
   \<and> handleSubmit crypto_env seeded
       = Inr (seeded\<lparr> members := [twin, new_member (safeUUID crypto_env) somchai None],
                     form := initialValues \<rparr>)
   \<and> m_id (new_member (safeUUID crypto_env) somchai None) \<noteq> m_id twin
   \<and> distinct (map m_id [twin, new_member (safeUUID crypto_env) somchai None])"
proof -
  have h1: "memberSchema (form seeded) = Inr somchai"
    by (simp add: seeded_def memberSchema_somchai)
  have h2: "\<not> truthy (editingId seeded)"
    by (simp add: seeded_def)
  have h3: "read_photo somchai = Inr None"
    by (rule read_photo_somchai)
  have h4: "safeUUID crypto_env \<notin> m_id ` set (members seeded)"
    by (simp add: safeUUID_def crypto_env_def seeded_def m_id_twin ascii_def)
  have h5: "distinct (map m_id (members seeded))"
    by (simp add: seeded_def)
  have ms: "members seeded = [twin]"
    by (simp add: seeded_def)
  from create_appends_generated_id [OF h1 h2 h3, of crypto_env] h4 h5
  obtain st' where run: "handleSubmit crypto_env seeded = Inr st'"
    and new: "members st' = members seeded @ [new_member (safeUUID crypto_env) somchai None]"
    and fresh: "\<forall>m \<in> set (members seeded). m_id m \<noteq> m_id (last (members st'))"
    and dist: "distinct (map m_id (members st'))"
    by blast
  have "handleSubmit crypto_env seeded = Inr (submit_create crypto_env seeded somchai None)"
    by (rule handleSubmit_create [OF h1 h2 h3])
  then have st': "st' = seeded\<lparr> members := [twin, new_member (safeUUID crypto_env) somchai None],
                              form := initialValues \<rparr>"
    using run by (simp add: submit_create_def ms)
  have "m_id (new_member (safeUUID crypto_env) somchai None) \<noteq> m_id twin"
    using fresh by (simp add: new ms)
  moreover have "distinct (map m_id [twin, new_member (safeUUID crypto_env) somchai None])"
    using dist by (simp add: new ms)
  ultimately show ?thesis
    using h1 h2 h3 h4 h5 run st' by simp
qed

text \<open>
  C1 as stated fails: without \<open>crypto.randomUUID\<close>, at the millisecond 1700000000000 and
  with \<open>Math.random().toString(36)\<close> giving \<open>0.abc123xyz\<close>, \<open>safeUUID\<close> returns
  \<open>id_1700000000000_abc123\<close>; on a collection that holds a record with that id the
  create appends a second record with the same id.
\<close>

theorem create_id_collision:
  "handleSubmit fallback_env seeded
     = Inr (seeded\<lparr> members := members seeded @ [twin], form := initialValues \<rparr>)
   \<and> m_id twin \<in> m_id ` set (members seeded)"
proof -
  have "form seeded = somchai" "\<not> truthy (editingId seeded)"
    by (simp_all add: seeded_def)
  then have "handleSubmit fallback_env seeded
               = Inr (submit_create fallback_env seeded somchai None)"
    using handleSubmit_create [of seeded somchai None fallback_env]
    by (simp add: memberSchema_somchai read_photo_somchai)
  then show ?thesis
    by (simp add: submit_create_def safeUUID_fallback_env twin_def seeded_def)
qed

section \<open>C2: update in place\<close>

text \<open>
  C2 says that an update of an id that a record has overwrites that record. \<open>onSubmit\<close>
  takes the editing branch when \<open>editingId\<close> is truthy, so not for the empty string, and
  only after the image, if any, has been read. Stated as what the code does: a submit of
  a valid draft while a non-empty id is being edited fails with the image read error when
  the draft's image cannot be read; otherwise it succeeds and returns to Creating with
  the form reset, the collection keeps its length and order and every record its id, every
  record with the edited id takes \<open>prefix\<close>, \<open>firstName\<close>, \<open>lastName\<close>,
  \<open>workHistory\<close> and \<open>party\<close> from the draft and \<open>ministerPosition\<close> and \<open>ministry\<close>
  from the draft with the empty string for \<open>undefined\<close>, its \<open>photo\<close> keeps its previous
  value when the draft has no image and is the data URL of the draft's image when it has
  one, and every record with another id is unchanged.
\<close>

theorem update_overwrites_in_place:
  assumes "editingId st = Some eid" and "eid \<noteq> []"
    and "prefix (form st) \<in> set prefix_enum"
    and "firstName (form st) \<noteq> []" and "lastName (form st) \<noteq> []"
    and "workHistory (form st) \<noteq> []" and "party (form st) \<noteq> []"
  shows "(photoFile (form st) = Some Unreadable \<longrightarrow> handleSubmit env st = Inl ImageReadError)
    \<and> (photoFile (form st) \<noteq> Some Unreadable \<longrightarrow>
         (\<exists>st'. handleSubmit env st = Inr st'
            \<and> editingId st' = None \<and> form st' = initialValues
            \<and> length (members st') = length (members st)
            \<and> (\<forall>k < length (members st).
                  m_id (members st' ! k) = m_id (members st ! k)
                  \<and> (m_id (members st ! k) \<noteq> eid \<longrightarrow> members st' ! k = members st ! k)
                  \<and> (m_id (members st ! k) = eid \<longrightarrow>
                       m_prefix (members st' ! k) = prefix (form st)
                       \<and> m_firstName (members st' ! k) = firstName (form st)
                       \<and> m_lastName (members st' ! k) = lastName (form st)
                       \<and> m_workHistory (members st' ! k) = workHistory (form st)
                       \<and> m_ministerPosition (members st' ! k)
                           = Some (case ministerPosition (form st) of None \<Rightarrow> [] | Some s \<Rightarrow> s)
                       \<and> m_ministry (members st' ! k)
                           = Some (case ministry (form st) of None \<Rightarrow> [] | Some s \<Rightarrow> s)
                       \<and> m_party (members st' ! k) = party (form st)
                       \<and> (photoFile (form st) = None \<longrightarrow>
                            m_photo (members st' ! k) = m_photo (members st ! k))
                       \<and> (\<forall>url. photoFile (form st) = Some (Readable url) \<longrightarrow>
                            m_photo (members st' ! k) = Some url)))))"
proof (intro conjI impI)
  have valid: "memberSchema (form st) = Inr (form st)"
    using assms by (simp add: memberSchema_Inr_iff)
  show "handleSubmit env st = Inl ImageReadError" if "photoFile (form st) = Some Unreadable"
    using valid that by (rule handleSubmit_unreadable)
  assume readable: "photoFile (form st) \<noteq> Some Unreadable"
  then obtain dataUrl where r: "read_photo (form st) = Inr dataUrl"
    and none: "photoFile (form st) = None \<Longrightarrow> dataUrl = None"
    and some: "\<And>url. photoFile (form st) = Some (Readable url) \<Longrightarrow> dataUrl = Some url"
    by (cases "photoFile (form st)"; cases "the (photoFile (form st))")
      (auto simp: read_photo_cases)
  let ?st' = "submit_edit eid st (form st) dataUrl"
  have run: "handleSubmit env st = Inr ?st'"
    using valid assms(1,2) r by (rule handleSubmit_edit)
  have ed: "editingId ?st' = None" "form ?st' = initialValues"
    "length (members ?st') = length (members st)"
    by (simp_all add: submit_edit_def)
  have each: "m_id (members ?st' ! k) = m_id (members st ! k)
        \<and> (m_id (members st ! k) \<noteq> eid \<longrightarrow> members ?st' ! k = members st ! k)
        \<and> (m_id (members st ! k) = eid \<longrightarrow>
             m_prefix (members ?st' ! k) = prefix (form st)
             \<and> m_firstName (members ?st' ! k) = firstName (form st)
             \<and> m_lastName (members ?st' ! k) = lastName (form st)
             \<and> m_workHistory (members ?st' ! k) = workHistory (form st)
             \<and> m_ministerPosition (members ?st' ! k)
                 = Some (case ministerPosition (form st) of None \<Rightarrow> [] | Some s \<Rightarrow> s)
             \<and> m_ministry (members ?st' ! k)
                 = Some (case ministry (form st) of None \<Rightarrow> [] | Some s \<Rightarrow> s)
             \<and> m_party (members ?st' ! k) = party (form st)
             \<and> (photoFile (form st) = None \<longrightarrow>
                  m_photo (members ?st' ! k) = m_photo (members st ! k))
             \<and> (\<forall>url. photoFile (form st) = Some (Readable url) \<longrightarrow>
                  m_photo (members ?st' ! k) = Some url))"
    if "k < length (members st)" for k
    using that none some
    by (cases "ministerPosition (form st)"; cases "ministry (form st)")
      (auto simp: submit_edit_def update_member_def)
  show "\<exists>st'. handleSubmit env st = Inr st'
            \<and> editingId st' = None \<and> form st' = initialValues
            \<and> length (members st') = length (members st)
            \<and> (\<forall>k < length (members st).
                  m_id (members st' ! k) = m_id (members st ! k)
                  \<and> (m_id (members st ! k) \<noteq> eid \<longrightarrow> members st' ! k = members st ! k)
                  \<and> (m_id (members st ! k) = eid \<longrightarrow>
                       m_prefix (members st' ! k) = prefix (form st)
                       \<and> m_firstName (members st' ! k) = firstName (form st)
                       \<and> m_lastName (members st' ! k) = lastName (form st)
                       \<and> m_workHistory (members st' ! k) = workHistory (form st)
                       \<and> m_ministerPosition (members st' ! k)
                           = Some (case ministerPosition (form st) of None \<Rightarrow> [] | Some s \<Rightarrow> s)
                       \<and> m_ministry (members st' ! k)
                           = Some (case ministry (form st) of None \<Rightarrow> [] | Some s \<Rightarrow> s)
                       \<and> m_party (members st' ! k) = party (form st)
                       \<and> (photoFile (form st) = None \<longrightarrow>
                            m_photo (members st' ! k) = m_photo (members st ! k))
                       \<and> (\<forall>url. photoFile (form st) = Some (Readable url) \<longrightarrow>
                            m_photo (members st' ! k) = Some url)))"
    using run ed each by (intro exI [of _ ?st']) blast
qed


text \<open>
  The theorem at a collection of two records, the second being edited and holding a
  photo, with a draft that changes every field: once with a new image, once without an
  image (the photo is kept), once with an image that cannot be read.
\<close>

theorem update_overwrites_in_place_witness:
  "editingId editing_pictured = Some (m_id pictured) \<and> m_id pictured \<noteq> []
   \<and> prefix (form editing_pictured) \<in> set prefix_enum
   \<and> firstName (form editing_pictured) \<noteq> [] \<and> lastName (form editing_pictured) \<noteq> []
   \<and> workHistory (form editing_pictured) \<noteq> [] \<and> party (form editing_pictured) \<noteq> []
   \<and> handleSubmit crypto_env editing_pictured
       = Inr \<lparr> members =
                 [twin,
                  \<lparr> m_id = m_id pictured, m_prefix = prefix_nang,
                    m_firstName = ascii ''Somying'', m_lastName = ascii ''Sukjai'',
                    m_photo = Some (ascii ''data:image/jpeg;base64,/9j/4AAQ''),
                    m_workHistory = ascii ''Senator'',
                    m_ministerPosition = Some (ascii ''Minister''), m_ministry = Some [],
                    m_party = ascii ''New Party'' \<rparr>],
               editingId = None, form = initialValues \<rparr>
   \<and> handleSubmit crypto_env (editing_pictured\<lparr> form := promoted\<lparr> photoFile := None \<rparr> \<rparr>)
       = Inr \<lparr> members =
                 [twin,
                  \<lparr> m_id = m_id pictured, m_prefix = prefix_nang,
                    m_firstName = ascii ''Somying'', m_lastName = ascii ''Sukjai'',
                    m_photo = m_photo pictured,
                    m_workHistory = ascii ''Senator'',
                    m_ministerPosition = Some (ascii ''Minister''), m_ministry = Some [],
                    m_party = ascii ''New Party'' \<rparr>],
               editingId = None, form = initialValues \<rparr>
   \<and> handleSubmit crypto_env (editing_pictured\<lparr> form := promoted\<lparr> photoFile := Some Unreadable \<rparr> \<rparr>)
       = Inl ImageReadError"
proof -
  let ?plain = "editing_pictured\<lparr> form := promoted\<lparr> photoFile := None \<rparr> \<rparr>"
  let ?broken = "editing_pictured\<lparr> form := promoted\<lparr> photoFile := Some Unreadable \<rparr> \<rparr>"
  have e: "editingId editing_pictured = Some (m_id pictured)" "m_id pictured \<noteq> []"
    by (simp_all add: editing_pictured_def m_id_pictured ascii_def)
  have v: "prefix (form editing_pictured) \<in> set prefix_enum"
    "firstName (form editing_pictured) \<noteq> []" "lastName (form editing_pictured) \<noteq> []"
    "workHistory (form editing_pictured) \<noteq> []" "party (form editing_pictured) \<noteq> []"
    by (simp_all add: editing_pictured_def promoted_def prefix_enum_def ascii_def)
  have e': "editingId ?broken = Some (m_id pictured)"
    and v': "prefix (form ?broken) \<in> set prefix_enum"
    "firstName (form ?broken) \<noteq> []" "lastName (form ?broken) \<noteq> []"
    "workHistory (form ?broken) \<noteq> []" "party (form ?broken) \<noteq> []"
    by (simp_all add: editing_pictured_def promoted_def prefix_enum_def ascii_def)
  have broken: "handleSubmit crypto_env ?broken = Inl ImageReadError"
    using update_overwrites_in_place [OF e' e(2) v', of crypto_env] by simp
  have ids: "m_id twin \<noteq> m_id pictured"
    by (simp add: m_id_twin m_id_pictured ascii_def)
  have with_image: "handleSubmit crypto_env editing_pictured
      = Inr (submit_edit (m_id pictured) editing_pictured promoted
               (Some (ascii ''data:image/jpeg;base64,/9j/4AAQ'')))"
  proof (rule handleSubmit_edit)
    show "memberSchema (form editing_pictured) = Inr promoted"
      by (simp add: editing_pictured_def memberSchema_promoted)
    show "read_photo promoted = Inr (Some (ascii ''data:image/jpeg;base64,/9j/4AAQ''))"
      by (simp add: read_photo_cases promoted_def)
  qed (rule e)+
  have no_image: "handleSubmit crypto_env ?plain
      = Inr (submit_edit (m_id pictured) ?plain (promoted\<lparr> photoFile := None \<rparr>) None)"
  proof (rule handleSubmit_edit)
    show "memberSchema (form ?plain) = Inr (promoted\<lparr> photoFile := None \<rparr>)"
      by (simp add: memberSchema_Inr_iff promoted_def prefix_enum_def ascii_def)
    show "read_photo (promoted\<lparr> photoFile := None \<rparr>) = Inr None"
      by (simp add: read_photo_cases)
    show "editingId ?plain = Some (m_id pictured)"
      by (simp add: e)
  qed (rule e)
  have r1: "submit_edit (m_id pictured) editing_pictured promoted
              (Some (ascii ''data:image/jpeg;base64,/9j/4AAQ''))
      = \<lparr> members =
            [twin,
             \<lparr> m_id = m_id pictured, m_prefix = prefix_nang,
               m_firstName = ascii ''Somying'', m_lastName = ascii ''Sukjai'',
               m_photo = Some (ascii ''data:image/jpeg;base64,/9j/4AAQ''),
               m_workHistory = ascii ''Senator'',
               m_ministerPosition = Some (ascii ''Minister''), m_ministry = Some [],
               m_party = ascii ''New Party'' \<rparr>],
          editingId = None, form = initialValues \<rparr>"
    using ids
    by (simp add: submit_edit_def update_member_def editing_pictured_def album_def
        promoted_def pictured_def)
  have r2: "submit_edit (m_id pictured) ?plain (promoted\<lparr> photoFile := None \<rparr>) None
      = \<lparr> members =
            [twin,
             \<lparr> m_id = m_id pictured, m_prefix = prefix_nang,
               m_firstName = ascii ''Somying'', m_lastName = ascii ''Sukjai'',
               m_photo = m_photo pictured,
               m_workHistory = ascii ''Senator'',
               m_ministerPosition = Some (ascii ''Minister''), m_ministry = Some [],
               m_party = ascii ''New Party'' \<rparr>],
          editingId = None, form = initialValues \<rparr>"
    using ids
    by (simp add: submit_edit_def update_member_def editing_pictured_def album_def
        promoted_def pictured_def)
  have "photoFile (form editing_pictured) \<noteq> Some Unreadable"
    by (simp add: editing_pictured_def promoted_def)
  with update_overwrites_in_place [OF e v, of crypto_env]
  have succeeded: "\<exists>st'. handleSubmit crypto_env editing_pictured = Inr st' \<and> editingId st' = None"
    by blast
  show ?thesis
    using e v broken succeeded with_image no_image r1 r2 by simp
qed

text \<open>
  C2 as stated fails at a record whose id is the empty string: with that record being
  edited, the submit of a valid draft leaves the record as it was and appends a new one.
\<close>

theorem update_of_empty_id_appends:
  "m_id nameless = [] \<and> editingId editing_nameless = Some []
   \<and> memberSchema (form editing_nameless) = Inr somchai_moved
   \<and> handleSubmit crypto_env editing_nameless
       = Inr \<lparr> members = [nameless, new_member (safeUUID crypto_env) somchai_moved None],
               editingId = Some [], form = initialValues \<rparr>
   \<and> m_party nameless \<noteq> party somchai_moved"
proof -
  have v: "memberSchema (form editing_nameless) = Inr somchai_moved"
    by (simp add: editing_nameless_def memberSchema_Inr_iff somchai_moved_def somchai_def
        prefix_nai_in_enum ascii_def)
  have "handleSubmit crypto_env editing_nameless
          = Inr (submit_create crypto_env editing_nameless somchai_moved None)"
    using v by (rule handleSubmit_create)
      (simp_all add: editing_nameless_def read_photo_def somchai_moved_def somchai_def)
  then show ?thesis
    using v
    by (simp add: submit_create_def editing_nameless_def nameless_def twin_def new_member_def
        somchai_moved_def somchai_def ascii_def)
qed

section \<open>C3: delete\<close>

text \<open>
  C3 says that delete removes exactly one record when the id is present. \<open>onDelete\<close>
  filters the collection, so it removes every record that has the id. Stated as what the
  code does: delete keeps, in their order, exactly the records whose id differs from the
  given one; it removes exactly one record when the ids of the collection are pairwise
  distinct and the id is present; it leaves the collection unchanged when the id is absent;
  and a second delete of the same id changes nothing.
\<close>

theorem delete_removes_all_matching:
  "members (onDelete st i) = filter (\<lambda>m. m_id m \<noteq> i) (members st)
   \<and> (distinct (map m_id (members st)) \<and> i \<in> m_id ` set (members st) \<longrightarrow>
        length (members (onDelete st i)) + 1 = length (members st))
   \<and> (i \<notin> m_id ` set (members st) \<longrightarrow> members (onDelete st i) = members st)
   \<and> onDelete (onDelete st i) i = onDelete st i"
proof (intro conjI impI)
  show "members (onDelete st i) = filter (\<lambda>m. m_id m \<noteq> i) (members st)"
    by (rule members_onDelete)
next
  assume "distinct (map m_id (members st)) \<and> i \<in> m_id ` set (members st)"
  then show "length (members (onDelete st i)) + 1 = length (members st)"
    using filter_distinct_one [of m_id "members st" i] by (simp add: members_onDelete)
next
  assume "i \<notin> m_id ` set (members st)"
  then show "members (onDelete st i) = members st"
    by (auto simp: members_onDelete filter_id_conv)
next
  show "onDelete (onDelete st i) i = onDelete st i"
    by (simp add: onDelete_def Let_def)
qed

text \<open>The theorem at a collection of two records with distinct ids: deleting the first
  removes one record, deleting an id that no record has removes none.\<close>

theorem delete_removes_all_matching_witness:
  "distinct (map m_id (members roster)) \<and> m_id twin \<in> m_id ` set (members roster)
   \<and> length (members (onDelete roster (m_id twin))) + 1 = length (members roster)
   \<and> ascii ''nobody'' \<notin> m_id ` set (members roster)
   \<and> members (onDelete roster (ascii ''nobody'')) = members roster"
proof -
  have d: "distinct (map m_id (members roster))"
    by (simp add: roster_def m_id_twin m_id_other_member ascii_def)
  have p: "m_id twin \<in> m_id ` set (members roster)"
    by (simp add: roster_def)
  have a: "ascii ''nobody'' \<notin> m_id ` set (members roster)"
    by (simp add: roster_def m_id_twin m_id_other_member ascii_def)
  from delete_removes_all_matching [of roster "m_id twin"] d p
  have one: "length (members (onDelete roster (m_id twin))) + 1 = length (members roster)"
    by blast
  from delete_removes_all_matching [of roster "ascii ''nobody''"] a
  have none: "members (onDelete roster (ascii ''nobody'')) = members roster"
    by blast
  from d p one a none show ?thesis by blast
qed

text \<open>
  C3 as stated fails on a collection in which two records carry the same id (the stored
  snapshot is not checked when it is loaded, and C1 shows a create that makes one): a delete
  of that id removes both.
\<close>

theorem delete_removes_both_twins:
  "length (members twins) = 2 \<and> m_id twin_b = m_id twin
   \<and> members (onDelete twins (m_id twin)) = []"
  by (simp add: twins_def onDelete_def twin_b_def)

section \<open>C4: the image on create\<close>

text \<open>
  C4 says that a draft without an image fails validation while creating. The
  \<open>Controller\<close> of \<open>photoFile\<close> declares the image required when nothing is being
  edited, but the form validates through the resolver of \<open>memberSchema\<close>, where
  \<open>photoFile\<close> is nullable and optional: in the Creating state, with the rule asking for
  an image and none supplied, the submit goes through and appends a record without photo.
\<close>

theorem create_without_photo_is_accepted:
  "photoFile_required creating \<and> photoFile (form creating) = None
   \<and> handleSubmit crypto_env creating
       = Inr \<lparr> members = [new_member (safeUUID crypto_env) somchai None],
               editingId = None, form = initialValues \<rparr>
   \<and> m_photo (new_member (safeUUID crypto_env) somchai None) = None"
proof -
  have "handleSubmit crypto_env creating = Inr (submit_create crypto_env creating somchai None)"
    by (rule handleSubmit_create)
      (simp_all add: creating_def memberSchema_somchai read_photo_somchai)
  then show ?thesis
    by (simp add: submit_create_def creating_def photoFile_required_def somchai_def
        new_member_def)
qed

section \<open>C5: what the schema rejects and accepts\<close>

text \<open>
  C5 says that a draft with the four texts filled in and the prefix \<open>Mr\<close> is accepted.
  The literals of the schema's enum are the Thai words, of which the first (U+0E19 U+0E32
  U+0E22) is the one rendered as Mr. Stated as what the code does: the schema rejects a
  draft in which \<open>firstName\<close>, \<open>lastName\<close>, \<open>workHistory\<close> or \<open>party\<close> is the empty
  string, with an issue for each empty field, and accepts a draft in which the four are
  non-empty and \<open>prefix\<close> is that first literal of the enum.
\<close>

theorem schema_rejects_empty_accepts_nai:
  "(firstName d = [] \<or> lastName d = [] \<or> workHistory d = [] \<or> party d = [] \<longrightarrow>
      (\<exists>issues. memberSchema d = Inl issues \<and> issues \<noteq> []))
   \<and> (firstName d = [] \<longrightarrow> (\<exists>issues. memberSchema d = Inl issues \<and> F_firstName \<in> set issues))
   \<and> (lastName d = [] \<longrightarrow> (\<exists>issues. memberSchema d = Inl issues \<and> F_lastName \<in> set issues))
   \<and> (workHistory d = [] \<longrightarrow>
        (\<exists>issues. memberSchema d = Inl issues \<and> F_workHistory \<in> set issues))
   \<and> (party d = [] \<longrightarrow> (\<exists>issues. memberSchema d = Inl issues \<and> F_party \<in> set issues))
   \<and> (firstName d \<noteq> [] \<and> lastName d \<noteq> [] \<and> workHistory d \<noteq> [] \<and> party d \<noteq> []
        \<and> prefix d = prefix_nai \<longrightarrow> memberSchema d = Inr d)"
  by (auto simp: memberSchema_def schema_issues_def min1_def Suc_le_eq prefix_nai_in_enum)

text \<open>The theorem at a draft with an empty party, and at a draft with everything filled in.\<close>

theorem schema_rejects_empty_accepts_nai_witness:
  "party (somchai\<lparr> party := [] \<rparr>) = []
   \<and> memberSchema (somchai\<lparr> party := [] \<rparr>) = Inl [F_party]
   \<and> firstName somchai \<noteq> [] \<and> lastName somchai \<noteq> [] \<and> workHistory somchai \<noteq> []
   \<and> party somchai \<noteq> [] \<and> prefix somchai = prefix_nai \<and> memberSchema somchai = Inr somchai"
proof -
  have a: "firstName somchai \<noteq> [] \<and> lastName somchai \<noteq> [] \<and> workHistory somchai \<noteq> []
     \<and> party somchai \<noteq> [] \<and> prefix somchai = prefix_nai"
    by (simp add: somchai_def ascii_def)
  have b: "memberSchema (somchai\<lparr> party := [] \<rparr>) = Inl [F_party]"
    by (simp add: memberSchema_def schema_issues_def min1_def somchai_def ascii_def
        prefix_nai_in_enum)
  show ?thesis
    using schema_rejects_empty_accepts_nai [of somchai]
      schema_rejects_empty_accepts_nai [of "somchai\<lparr> party := [] \<rparr>"] a b
    by simp
qed

text \<open>C5 as stated fails: with the four texts filled in and the prefix \<open>Mr\<close>, the schema
  rejects the draft for its prefix.\<close>

theorem prefix_Mr_rejected:
  "firstName (somchai\<lparr> prefix := ascii ''Mr'' \<rparr>) \<noteq> []
   \<and> lastName (somchai\<lparr> prefix := ascii ''Mr'' \<rparr>) \<noteq> []
   \<and> workHistory (somchai\<lparr> prefix := ascii ''Mr'' \<rparr>) \<noteq> []
   \<and> party (somchai\<lparr> prefix := ascii ''Mr'' \<rparr>) \<noteq> []
   \<and> memberSchema (somchai\<lparr> prefix := ascii ''Mr'' \<rparr>) = Inl [F_prefix]"
  by (simp add: memberSchema_def schema_issues_def min1_def somchai_def ascii_def
      prefix_enum_def prefix_nai_def prefix_nang_def prefix_nangsao_def prefix_other_def)

section \<open>C6: update of an id that no record has\<close>

text \<open>
  C6 says that an update of an absent id fails with NotFound. The editing branch maps over
  the collection and has no failure of that kind. Stated as what the code does: a submit
  of a valid draft while \<open>editingId\<close> is a non-empty id that no record has fails only when
  the draft's image cannot be read, with the image read error; otherwise it succeeds,
  leaves the collection unchanged, and returns to Creating with the form reset.
\<close>

theorem update_absent_id_is_silent:
  assumes "editingId st = Some eid" and "eid \<noteq> []" and "eid \<notin> m_id ` set (members st)"
    and "prefix (form st) \<in> set prefix_enum"
    and "firstName (form st) \<noteq> []" and "lastName (form st) \<noteq> []"
    and "workHistory (form st) \<noteq> []" and "party (form st) \<noteq> []"
  shows "handleSubmit env st
           = (if photoFile (form st) = Some Unreadable then Inl ImageReadError
              else Inr (st\<lparr> editingId := None, form := initialValues \<rparr>))"
proof (cases "photoFile (form st) = Some Unreadable")
  case True
  have "memberSchema (form st) = Inr (form st)"
    using assms by (simp add: memberSchema_Inr_iff)
  then show ?thesis
    using True by (simp add: handleSubmit_unreadable)
next
  case False
  have valid: "memberSchema (form st) = Inr (form st)"
    using assms by (simp add: memberSchema_Inr_iff)
  obtain dataUrl where r: "read_photo (form st) = Inr dataUrl"
    using False
    by (cases "photoFile (form st)"; cases "the (photoFile (form st))")
      (auto simp: read_photo_cases)
  have "map (update_member eid (form st) dataUrl) (members st) = members st"
    using assms(3) by (intro map_idI) (auto simp: update_member_def)
  then have "submit_edit eid st (form st) dataUrl
               = st\<lparr> editingId := None, form := initialValues \<rparr>"
    by (simp add: submit_edit_def)
  with handleSubmit_edit [OF valid assms(1) assms(2) r, of env] False show ?thesis
    by simp
qed

text \<open>The theorem at a state that edits the id \<open>ghost\<close>, which no record has: with a
  draft without image, and with a draft whose image cannot be read.\<close>

theorem update_absent_id_is_silent_witness:
  "editingId ghost_edit = Some (ascii ''ghost'') \<and> ascii ''ghost'' \<noteq> []
   \<and> ascii ''ghost'' \<notin> m_id ` set (members ghost_edit)
   \<and> prefix (form ghost_edit) \<in> set prefix_enum
   \<and> firstName (form ghost_edit) \<noteq> [] \<and> lastName (form ghost_edit) \<noteq> []
   \<and> workHistory (form ghost_edit) \<noteq> [] \<and> party (form ghost_edit) \<noteq> []
   \<and> photoFile (form ghost_edit) = None
   \<and> handleSubmit fallback_env ghost_edit
       = Inr (ghost_edit\<lparr> editingId := None, form := initialValues \<rparr>)
   \<and> photoFile (form ghost_edit_unreadable) = Some Unreadable
   \<and> handleSubmit fallback_env ghost_edit_unreadable = Inl ImageReadError"
proof -
  have h: "editingId ghost_edit = Some (ascii ''ghost'')" "ascii ''ghost'' \<noteq> []"
    "ascii ''ghost'' \<notin> m_id ` set (members ghost_edit)"
    by (simp_all add: ghost_edit_def m_id_twin ascii_def)
  have v: "prefix (form ghost_edit) \<in> set prefix_enum"
    "firstName (form ghost_edit) \<noteq> []" "lastName (form ghost_edit) \<noteq> []"
    "workHistory (form ghost_edit) \<noteq> []" "party (form ghost_edit) \<noteq> []"
    by (simp_all add: ghost_edit_def somchai_def prefix_nai_in_enum ascii_def)
  have p: "photoFile (form ghost_edit) = None"
    by (simp add: ghost_edit_def somchai_def)
  have h': "editingId ghost_edit_unreadable = Some (ascii ''ghost'')"
    "ascii ''ghost'' \<notin> m_id ` set (members ghost_edit_unreadable)"
    by (simp_all add: ghost_edit_unreadable_def ghost_edit_def m_id_twin ascii_def)
  have v': "prefix (form ghost_edit_unreadable) \<in> set prefix_enum"
    "firstName (form ghost_edit_unreadable) \<noteq> []" "lastName (form ghost_edit_unreadable) \<noteq> []"
    "workHistory (form ghost_edit_unreadable) \<noteq> []" "party (form ghost_edit_unreadable) \<noteq> []"
    by (simp_all add: ghost_edit_unreadable_def somchai_def prefix_nai_in_enum ascii_def)
  have p': "photoFile (form ghost_edit_unreadable) = Some Unreadable"
    by (simp add: ghost_edit_unreadable_def)
  show ?thesis
    using update_absent_id_is_silent [OF h v, of fallback_env]
      update_absent_id_is_silent [OF h'(1) h(2) h'(2) v', of fallback_env] h v p p'
    by simp
qed

text \<open>C6 as stated fails: the submit below edits an id that no record has, and its
  result is a success with the collection as it was.\<close>

theorem update_absent_id_succeeds:
  "ascii ''ghost'' \<notin> m_id ` set (members ghost_edit)
   \<and> handleSubmit crypto_env ghost_edit
       = Inr \<lparr> members = [twin], editingId = None, form = initialValues \<rparr>"
proof -
  have "handleSubmit crypto_env ghost_edit
          = Inr (submit_edit (ascii ''ghost'') ghost_edit somchai None)"
    by (rule handleSubmit_edit)
      (simp_all add: ghost_edit_def memberSchema_somchai read_photo_somchai ascii_def)
  then show ?thesis
    by (simp add: submit_edit_def ghost_edit_def update_member_def m_id_twin ascii_def)
qed

section \<open>C7: the snapshot read back\<close>

text \<open>
  C7: for every collection of member records, \<open>JSON.parse\<close> of the text that
  \<open>JSON.stringify\<close> makes of it is the value of the collection again, and that value,
  read as member records, is the same records with the same fields in the same order. So
  when the storage takes the text, what the initializer loads from it is the collection.
\<close>

theorem stringify_parse_roundtrip:
  "JSON_parse (JSON_stringify (members_value ms)) = Some (members_value ms)
   \<and> as_Member_array (members_value ms) = Some ms
   \<and> (accessible s \<and> length (JSON_stringify (members_value ms)) \<le> quota s \<longrightarrow>
        initial_members (persist_effect s ms) = Inr (members_value ms))"
proof (intro conjI impI)
  show rt: "JSON_parse (JSON_stringify (members_value ms)) = Some (members_value ms)"
    by (rule JSON_parse_stringify_members)
  show "as_Member_array (members_value ms) = Some ms"
    by (rule as_Member_array_members_value)
  assume a: "accessible s \<and> length (JSON_stringify (members_value ms)) \<le> quota s"
  have ne: "JSON_stringify (members_value ms) \<noteq> []"
    by (simp add: JSON_stringify_def members_value_def)
  from a have "persist_effect s ms = s\<lparr> stored := Some (JSON_stringify (members_value ms)) \<rparr>"
    by (simp add: persist_effect_def setItem_def)
  then show "initial_members (persist_effect s ms) = Inr (members_value ms)"
    using a ne rt by (simp add: initial_members_def initializer_try_def getItem_def)
qed

lemma length_album: "length (JSON_stringify (members_value album)) = 391"
  by (simp add: JSON_stringify_def members_value_def album_def json_of_member_def
      own_properties_def twin_def pictured_def new_member_def somchai_def ascii_def
      QuoteJSONString_def quote_unit_def UnicodeEscape_def is_leading_surrogate_def
      is_trailing_surrogate_def prefix_nai_def prefix_nang_def)

text \<open>The theorem at a collection of two records, one of them with a photo and with
  characters that are escaped in the text.\<close>

theorem stringify_parse_roundtrip_witness:
  "JSON_parse (JSON_stringify (members_value album)) = Some (members_value album)
   \<and> as_Member_array (members_value album) = Some album
   \<and> accessible browser_storage
   \<and> length (JSON_stringify (members_value album)) \<le> quota browser_storage
   \<and> initial_members (persist_effect browser_storage album) = Inr (members_value album)"
proof -
  have a: "accessible browser_storage"
    by (simp add: browser_storage_def)
  have q: "length (JSON_stringify (members_value album)) \<le> quota browser_storage"
    by (simp add: length_album browser_storage_def)
  show ?thesis
    using stringify_parse_roundtrip [of album browser_storage] a q by simp
qed

section \<open>C8: the initial collection\<close>

text \<open>
  C8: whatever the storage holds, the initializer of \<open>members\<close> returns a value and throws
  nothing; when the storage cannot be read, when the key is absent, and when the text
  under it does not parse, the value is the empty collection.
\<close>

theorem initial_members_never_fails:
  "(\<exists>v. initial_members s = Inr v)
   \<and> (\<not> accessible s \<or> stored s = None
        \<or> (\<exists>raw. stored s = Some raw \<and> JSON_parse raw = None) \<longrightarrow>
        initial_members s = Inr (members_value []))"
  by (auto simp: initial_members_def initializer_try_def getItem_def members_value_def
      split: sum.splits option.splits)

lemma JSON_parse_malformed: "JSON_parse (ascii ''[{oops'') = None"
  by code_simp

text \<open>The theorem at a storage that cannot be read, at one without the key, and at one
  with a malformed text under the key.\<close>

theorem initial_members_never_fails_witness:
  "initial_members (browser_storage\<lparr> accessible := False \<rparr>) = Inr (members_value [])
   \<and> stored browser_storage = None
   \<and> initial_members browser_storage = Inr (members_value [])
   \<and> JSON_parse (ascii ''[{oops'') = None
   \<and> initial_members (browser_storage\<lparr> stored := Some (ascii ''[{oops'') \<rparr>)
       = Inr (members_value [])"
proof -
  have n: "stored browser_storage = None"
    by (simp add: browser_storage_def)
  show ?thesis
    using initial_members_never_fails [of "browser_storage\<lparr> accessible := False \<rparr>"]
      initial_members_never_fails [of browser_storage]
      initial_members_never_fails [of "browser_storage\<lparr> stored := Some (ascii ''[{oops'') \<rparr>"]
      n JSON_parse_malformed
    by simp
qed

section \<open>C9: delete and the editing state\<close>

text \<open>
  C9: whatever the editing state, delete leaves no record with the given id and keeps the
  others; when the id is the one being edited, \<open>editingId\<close> becomes \<open>null\<close> and the form
  is reset to \<open>initialValues\<close>; otherwise \<open>editingId\<close> and the form are unchanged.
\<close>

theorem delete_resets_editing_of_deleted:
  "members (onDelete st i) = filter (\<lambda>m. m_id m \<noteq> i) (members st)
   \<and> (\<forall>m \<in> set (members (onDelete st i)). m_id m \<noteq> i)
   \<and> (editingId st = Some i \<longrightarrow>
        editingId (onDelete st i) = None \<and> form (onDelete st i) = initialValues)
   \<and> (editingId st \<noteq> Some i \<longrightarrow>
        editingId (onDelete st i) = editingId st \<and> form (onDelete st i) = form st)"
  by (simp add: members_onDelete editingId_onDelete form_onDelete)

text \<open>The theorem at a state that edits the first of two records: deleting the first, and
  deleting the second.\<close>

theorem delete_resets_editing_of_deleted_witness:
  "editingId roster = Some (m_id twin)
   \<and> members (onDelete roster (m_id twin)) = [other_member]
   \<and> editingId (onDelete roster (m_id twin)) = None
   \<and> form (onDelete roster (m_id twin)) = initialValues
   \<and> editingId roster \<noteq> Some (m_id other_member)
   \<and> members (onDelete roster (m_id other_member)) = [twin]
   \<and> editingId (onDelete roster (m_id other_member)) = Some (m_id twin)
   \<and> form (onDelete roster (m_id other_member)) = somchai_moved"
proof -
  have e: "editingId roster = Some (m_id twin)" by (simp add: roster_def)
  have n: "editingId roster \<noteq> Some (m_id other_member)"
    by (simp add: roster_def m_id_twin m_id_other_member ascii_def)
  have f1: "filter (\<lambda>m. m_id m \<noteq> m_id twin) (members roster) = [other_member]"
    by (simp add: roster_def m_id_twin m_id_other_member ascii_def)
  have f2: "filter (\<lambda>m. m_id m \<noteq> m_id other_member) (members roster) = [twin]"
    by (simp add: roster_def m_id_twin m_id_other_member ascii_def)
  have g: "form roster = somchai_moved" by (simp add: roster_def)
  show ?thesis
    using delete_resets_editing_of_deleted [of roster "m_id twin"]
      delete_resets_editing_of_deleted [of roster "m_id other_member"] e n f1 f2 g
    by simp
qed

section \<open>C10: texts of white space\<close>

text \<open>
  C10: the schema asks of \<open>firstName\<close>, \<open>lastName\<close>, \<open>workHistory\<close> and \<open>party\<close> a
  length of at least one and trims nothing. A draft whose prefix is a literal of the enum
  and whose four texts are non-empty and made of white space only is accepted; a submit
  of it in the Creating state appends a record that holds the four texts as they are, and
  the snapshot written of the new collection reads back as that collection.
\<close>

theorem whitespace_only_fields_accepted:
  assumes "prefix d \<in> set prefix_enum"
    and "whitespace_only (firstName d)" and "whitespace_only (lastName d)"
    and "whitespace_only (workHistory d)" and "whitespace_only (party d)"
  shows "memberSchema d = Inr d
    \<and> (form st = d \<and> \<not> truthy (editingId st) \<and> read_photo d = Inr dataUrl \<longrightarrow>
         (\<exists>st'. handleSubmit env st = Inr st'
            \<and> members st' = members st @ [new_member (safeUUID env) d dataUrl]
            \<and> m_firstName (last (members st')) = firstName d
            \<and> m_lastName (last (members st')) = lastName d
            \<and> m_workHistory (last (members st')) = workHistory d
            \<and> m_party (last (members st')) = party d
            \<and> Option.bind (JSON_parse (JSON_stringify (members_value (members st'))))
                  as_Member_array = Some (members st')))"
proof (intro conjI impI)
  show ok: "memberSchema d = Inr d"
    using assms by (simp add: memberSchema_Inr_iff whitespace_only_def)
  assume a: "form st = d \<and> \<not> truthy (editingId st) \<and> read_photo d = Inr dataUrl"
  let ?st' = "submit_create env st d dataUrl"
  have run: "handleSubmit env st = Inr ?st'"
    using a ok by (intro handleSubmit_create) simp_all
  have ms: "members ?st' = members st @ [new_member (safeUUID env) d dataUrl]"
    by (simp add: submit_create_def)
  have fields: "m_firstName (last (members ?st')) = firstName d"
    "m_lastName (last (members ?st')) = lastName d"
    "m_workHistory (last (members ?st')) = workHistory d"
    "m_party (last (members ?st')) = party d"
    by (simp_all add: ms new_member_def)
  have reread: "Option.bind (JSON_parse (JSON_stringify (members_value (members ?st'))))
                as_Member_array = Some (members ?st')"
    by (simp add: JSON_parse_stringify_members as_Member_array_members_value)
  show "\<exists>st'. handleSubmit env st = Inr st'
            \<and> members st' = members st @ [new_member (safeUUID env) d dataUrl]
            \<and> m_firstName (last (members st')) = firstName d
            \<and> m_lastName (last (members st')) = lastName d
            \<and> m_workHistory (last (members st')) = workHistory d
            \<and> m_party (last (members st')) = party d
            \<and> Option.bind (JSON_parse (JSON_stringify (members_value (members st'))))
                  as_Member_array = Some (members st')"
    using run ms fields reread by (intro exI [of _ ?st']) (simp only: simp_thms)
qed

text \<open>The theorem at the draft whose four texts are one space each, submitted on an empty
  collection.\<close>

theorem whitespace_only_fields_accepted_witness:
  "prefix blank \<in> set prefix_enum
   \<and> whitespace_only (firstName blank) \<and> whitespace_only (lastName blank)
   \<and> whitespace_only (workHistory blank) \<and> whitespace_only (party blank)
   \<and> memberSchema blank = Inr blank
   \<and> read_photo blank = Inr None
   \<and> handleSubmit crypto_env \<lparr> members = [], editingId = None, form = blank \<rparr>
       = Inr \<lparr> members = [new_member (safeUUID crypto_env) blank None], editingId = None,
               form = initialValues \<rparr>
   \<and> m_firstName (new_member (safeUUID crypto_env) blank None) = [0x20]
   \<and> m_lastName (new_member (safeUUID crypto_env) blank None) = [0x20]
   \<and> m_workHistory (new_member (safeUUID crypto_env) blank None) = [0x20]
   \<and> m_party (new_member (safeUUID crypto_env) blank None) = [0x20]"
proof -
  let ?st = "\<lparr> members = [], editingId = None, form = blank \<rparr>"
  have p: "prefix blank \<in> set prefix_enum"
    by (simp add: blank_def prefix_nai_in_enum)
  have w: "whitespace_only (firstName blank)" "whitespace_only (lastName blank)"
    "whitespace_only (workHistory blank)" "whitespace_only (party blank)"
    by (simp_all add: blank_def whitespace_only_def is_whitespace_def)
  have r: "read_photo blank = Inr None"
    by (simp add: read_photo_def blank_def)
  have s: "form ?st = blank \<and> \<not> truthy (editingId ?st) \<and> read_photo blank = Inr None"
    using r by simp
  from whitespace_only_fields_accepted [OF p w, of ?st None crypto_env] s
  obtain st' where ok: "memberSchema blank = Inr blank"
    and run: "handleSubmit crypto_env ?st = Inr st'"
    and ms: "members st' = members ?st @ [new_member (safeUUID crypto_env) blank None]"
    by blast
  have "handleSubmit crypto_env ?st = Inr (submit_create crypto_env ?st blank None)"
    using ok s by (intro handleSubmit_create) simp_all
  then have "handleSubmit crypto_env ?st
               = Inr \<lparr> members = [new_member (safeUUID crypto_env) blank None],
                       editingId = None, form = initialValues \<rparr>"
    by (simp add: submit_create_def)
  then show ?thesis
    using p w r ok by (simp add: new_member_def blank_def)
qed

end
